theory Spec2Isabelle
  imports Main
begin

section \<open>Python values that the producer handles\<close>

text \<open>
  The producer of \<^verbatim>\<open>producers/json_producer_badeniyan.py\<close> moves the values that
  \<^verbatim>\<open>json.loads\<close> and \<^verbatim>\<open>json.load\<close> return: \<^verbatim>\<open>None\<close>, booleans, integers,
  floats, strings, lists and dictionaries. Strings are kept as their UTF-8 bytes. A
  dictionary is an association list in insertion order with distinct keys.

  A float is kept as the decimal \<open>m * 10 ^ e\<close> that the text denotes, before it is
  rounded to binary64; the three special values that Python's decoder accepts are
  constructors of their own.
\<close>

datatype pyfloat = Finite int int | NaN | Infinity bool

datatype json =
    JNull
  | JBool bool
  | JInt int
  | JFloat pyfloat
  | JStr string
  | JArr "json list"
  | JObj "(string \<times> json) list"

text \<open>
  A decimal rounds to \<open>0.0\<close> exactly when its magnitude is at most \<open>2 ^ -1075\<close>, half
  of the smallest subnormal binary64 number (the tie rounds to even, which is zero).
\<close>

fun float_is_zero :: "pyfloat \<Rightarrow> bool" where
  "float_is_zero (Finite m e) =
     (m = 0 \<or> (e < 0 \<and> \<bar>m\<bar> * 2 ^ 1075 \<le> 10 ^ nat (- e)))"
| "float_is_zero NaN = False"
| "float_is_zero (Infinity negative) = False"

text \<open>Python's truth value of an object, as \<^verbatim>\<open>if custom_msg:\<close> tests it.\<close>

fun truthy :: "json \<Rightarrow> bool" where
  "truthy JNull = False"
| "truthy (JBool b) = b"
| "truthy (JInt i) = (i \<noteq> 0)"
| "truthy (JFloat f) = (\<not> float_is_zero f)"
| "truthy (JStr s) = (s \<noteq> [])"
| "truthy (JArr xs) = (xs \<noteq> [])"
| "truthy (JObj kvs) = (kvs \<noteq> [])"

fun is_mapping :: "json \<Rightarrow> bool" where
  "is_mapping (JObj kvs) = True"
| "is_mapping v = False"

fun is_list :: "json \<Rightarrow> bool" where
  "is_list (JArr xs) = True"
| "is_list v = False"

section \<open>The JSON decoder\<close>

text \<open>
  \<^verbatim>\<open>json.loads\<close> belongs to Python's standard library, not to the repository. A call
  of it returns a value, raises \<^verbatim>\<open>json.JSONDecodeError\<close>, or raises another exception
  of class \<^verbatim>\<open>Exception\<close>: \<^verbatim>\<open>ValueError\<close> for an integer of more digits than the
  interpreter converts, \<^verbatim>\<open>RecursionError\<close> for a nesting deeper than its stack
  allows. The functions of the producer below take the decoder as an argument
  \<open>loads\<close> with these three outcomes, and the theorems about them hold for every
  decoder.

  \<open>json_loads\<close> is the decoder that the concrete runs use: a recursive-descent reader
  of the grammar that CPython's scanner accepts (the four white-space characters,
  \<^verbatim>\<open>null\<close>, \<^verbatim>\<open>true\<close>, \<^verbatim>\<open>false\<close>, \<^verbatim>\<open>NaN\<close>, \<^verbatim>\<open>Infinity\<close>,
  \<^verbatim>\<open>-Infinity\<close>, numbers, strings with escapes, arrays, objects), with the rest of
  the text required to be white space. As CPython 3.11 does by default, it refuses an
  integer of more than 4300 digits. The depth at which the interpreter gives up on
  nested arrays and objects depends on the state of its stack and is not part of
  \<open>json_loads\<close>.
\<close>

datatype decoded =
    Decoded json
  | JSONDecodeError
  | OtherError \<comment> \<open>an exception of class \<^verbatim>\<open>Exception\<close> that is not a
      \<^verbatim>\<open>json.JSONDecodeError\<close>\<close>

text \<open>
  What reading a value from the front of a text gives: the value and the rest of the
  text, a syntax error, or the refusal of an integer that is too long.
\<close>

datatype 'a scanned = Scanned 'a string | Invalid | Refused

definition is_ws :: "char \<Rightarrow> bool" where
  "is_ws c = (c = CHR 0x20 \<or> c = CHR 0x09 \<or> c = CHR 0x0A \<or> c = CHR 0x0D)"

fun skip_ws :: "string \<Rightarrow> string" where
  "skip_ws [] = []"
| "skip_ws (c # cs) = (if is_ws c then skip_ws cs else c # cs)"

definition digit_val :: "char \<Rightarrow> nat option" where
  "digit_val c =
     (let n = (of_char c :: nat) in if 48 \<le> n \<and> n \<le> 57 then Some (n - 48) else None)"

definition is_digit :: "char \<Rightarrow> bool" where
  "is_digit c = (digit_val c \<noteq> None)"

definition hex_val :: "char \<Rightarrow> nat option" where
  "hex_val c =
     (let n = (of_char c :: nat) in
      if 48 \<le> n \<and> n \<le> 57 then Some (n - 48)
      else if 65 \<le> n \<and> n \<le> 70 then Some (n - 55)
      else if 97 \<le> n \<and> n \<le> 102 then Some (n - 87)
      else None)"

text \<open>The value of a run of decimal digits, most significant first.\<close>

fun digits_val :: "nat \<Rightarrow> string \<Rightarrow> nat" where
  "digits_val acc [] = acc"
| "digits_val acc (c # cs) =
     digits_val (10 * acc + (case digit_val c of Some d \<Rightarrow> d | None \<Rightarrow> 0)) cs"

text \<open>Four hexadecimal digits of a \<^verbatim>\<open>\uXXXX\<close> escape and the text after them.\<close>

fun hex4 :: "string \<Rightarrow> (nat \<times> string) option" where
  "hex4 (a # b # c # d # cs) =
     (case (hex_val a, hex_val b, hex_val c, hex_val d) of
        (Some x, Some y, Some z, Some w) \<Rightarrow> Some (((x * 16 + y) * 16 + z) * 16 + w, cs)
      | _ \<Rightarrow> None)"
| "hex4 cs = None"

text \<open>The UTF-8 bytes of a code point (a lone surrogate takes the three-byte form).\<close>

definition utf8 :: "nat \<Rightarrow> string" where
  "utf8 n =
     (if n < 0x80 then [char_of n]
      else if n < 0x800 then [char_of (0xC0 + n div 64), char_of (0x80 + n mod 64)]
      else if n < 0x10000 then
        [char_of (0xE0 + n div 4096), char_of (0x80 + n div 64 mod 64),
         char_of (0x80 + n mod 64)]
      else
        [char_of (0xF0 + n div 262144), char_of (0x80 + n div 4096 mod 64),
         char_of (0x80 + n div 64 mod 64), char_of (0x80 + n mod 64)])"

definition unescape :: "char \<Rightarrow> char option" where
  "unescape e =
     (if e = CHR 0x22 then Some (CHR 0x22)
      else if e = CHR 0x5C then Some (CHR 0x5C)
      else if e = CHR ''/'' then Some (CHR ''/'')
      else if e = CHR ''b'' then Some (CHR 0x08)
      else if e = CHR ''f'' then Some (CHR 0x0C)
      else if e = CHR ''n'' then Some (CHR 0x0A)
      else if e = CHR ''r'' then Some (CHR 0x0D)
      else if e = CHR ''t'' then Some (CHR 0x09)
      else None)"

text \<open>
  A \<^verbatim>\<open>\uXXXX\<close> escape, the text positioned after the \<^verbatim>\<open>u\<close>: a high surrogate that
  is followed by the escape of a low surrogate is joined with it.
\<close>

definition unicode_escape :: "string \<Rightarrow> (string \<times> string) option" where
  "unicode_escape cs =
     (case hex4 cs of
        None \<Rightarrow> None
      | Some (hi, rest) \<Rightarrow>
          if 0xD800 \<le> hi \<and> hi \<le> 0xDBFF \<and> take 2 rest = [CHR 0x5C, CHR ''u''] then
            (case hex4 (drop 2 rest) of
               None \<Rightarrow> None
             | Some (lo, rest') \<Rightarrow>
                 if 0xDC00 \<le> lo \<and> lo \<le> 0xDFFF
                 then Some (utf8 (0x10000 + (hi - 0xD800) * 1024 + (lo - 0xDC00)), rest')
                 else Some (utf8 hi, rest))
          else Some (utf8 hi, rest))"

text \<open>
  The body of a string, the text positioned after the opening quote. The fuel bounds the
  number of characters and escapes read; \<open>length cs\<close> is enough.
\<close>

fun scan_string :: "nat \<Rightarrow> string \<Rightarrow> (string \<times> string) option" where
  "scan_string 0 cs = None"
| "scan_string (Suc n) [] = None"
| "scan_string (Suc n) (c # cs) =
     (if c = CHR 0x22 then Some ([], cs)
      else if (of_char c :: nat) < 32 then None
      else if c = CHR 0x5C then
        (case cs of
           [] \<Rightarrow> None
         | e # cs' \<Rightarrow>
             if e = CHR ''u'' then
               (case unicode_escape cs' of
                  None \<Rightarrow> None
                | Some (bytes, rest) \<Rightarrow>
                    (case scan_string n rest of
                       None \<Rightarrow> None
                     | Some (s, rest') \<Rightarrow> Some (bytes @ s, rest')))
             else
               (case unescape e of
                  None \<Rightarrow> None
                | Some d \<Rightarrow>
                    (case scan_string n cs' of
                       None \<Rightarrow> None
                     | Some (s, rest') \<Rightarrow> Some (d # s, rest'))))
      else
        (case scan_string n cs of
           None \<Rightarrow> None
         | Some (s, rest') \<Rightarrow> Some (c # s, rest')))"

text \<open>
  A number: an optional minus sign, \<^verbatim>\<open>0\<close> or a run of digits that does not start with
  \<^verbatim>\<open>0\<close>, an optional fraction and an optional exponent. A fraction or an exponent
  without a digit is not part of the number. Without both the number is an integer,
  which is refused when it has more than 4300 digits.
\<close>

definition scan_number :: "string \<Rightarrow> json scanned" where
  "scan_number cs =
     (let negative = (take 1 cs = ''-'');
          cs1 = (if negative then drop 1 cs else cs);
          ipart = (if take 1 cs1 = ''0'' then ''0'' else takeWhile is_digit cs1);
          cs2 = drop (length ipart) cs1;
          fpart = (if take 1 cs2 = ''.'' then takeWhile is_digit (drop 1 cs2) else []);
          cs3 = (if fpart = [] then cs2 else drop (Suc (length fpart)) cs2);
          has_e = (take 1 cs3 = ''e'' \<or> take 1 cs3 = ''E'');
          cs4 = drop 1 cs3;
          esign = (if take 1 cs4 = ''-'' \<or> take 1 cs4 = ''+'' then take 1 cs4 else []);
          epart = (if has_e then takeWhile is_digit (drop (length esign) cs4) else []);
          cs5 = (if epart = [] then cs3 else drop (length esign + length epart) cs4);
          sgn = (if negative then - 1 else 1)
      in if ipart = [] then Invalid
         else if fpart = [] \<and> epart = [] then
           (if 4300 < length ipart then Refused
            else Scanned (JInt (sgn * int (digits_val 0 ipart))) cs5)
         else
           Scanned (JFloat (Finite (sgn * int (digits_val 0 (ipart @ fpart)))
                      ((if esign = ''-'' then - 1 else 1) * int (digits_val 0 epart)
                       - int (length fpart))))
             cs5)"

text \<open>Python's \<^verbatim>\<open>d[k] = v\<close> on a dictionary in insertion order.\<close>

fun dict_set :: "(string \<times> json) list \<Rightarrow> string \<Rightarrow> json \<Rightarrow> (string \<times> json) list" where
  "dict_set [] k v = [(k, v)]"
| "dict_set ((k', v') # kvs) k v =
     (if k' = k then (k, v) # kvs else (k', v') # dict_set kvs k v)"

definition starts_with :: "string \<Rightarrow> string \<Rightarrow> bool" where
  "starts_with p cs = (take (length p) cs = p)"

text \<open>
  A value, the elements of an array after \<^verbatim>\<open>[\<close> and the members of an object after
  \<^verbatim>\<open>{\<close>. Every recursive call comes after at least one character read, so a fuel of
  the length of the text (plus one) never runs out.
\<close>

fun parse_value :: "nat \<Rightarrow> string \<Rightarrow> json scanned"
  and parse_array :: "nat \<Rightarrow> string \<Rightarrow> json list \<Rightarrow> (json list) scanned"
  and parse_object ::
    "nat \<Rightarrow> string \<Rightarrow> (string \<times> json) list \<Rightarrow> ((string \<times> json) list) scanned"
where
  "parse_value 0 cs = Invalid"
| "parse_value (Suc n) cs =
     (if starts_with [CHR 0x22] cs then
        (case scan_string (length cs) (drop 1 cs) of
           None \<Rightarrow> Invalid
         | Some (s, rest) \<Rightarrow> Scanned (JStr s) rest)
      else if starts_with ''{'' cs then
        (if starts_with ''}'' (skip_ws (drop 1 cs))
         then Scanned (JObj []) (drop 1 (skip_ws (drop 1 cs)))
         else (case parse_object n (skip_ws (drop 1 cs)) [] of
                 Scanned kvs rest \<Rightarrow> Scanned (JObj kvs) rest
               | Invalid \<Rightarrow> Invalid
               | Refused \<Rightarrow> Refused))
      else if starts_with ''['' cs then
        (if starts_with '']'' (skip_ws (drop 1 cs))
         then Scanned (JArr []) (drop 1 (skip_ws (drop 1 cs)))
         else (case parse_array n (skip_ws (drop 1 cs)) [] of
                 Scanned vs rest \<Rightarrow> Scanned (JArr vs) rest
               | Invalid \<Rightarrow> Invalid
               | Refused \<Rightarrow> Refused))
      else if starts_with ''null'' cs then Scanned JNull (drop 4 cs)
      else if starts_with ''true'' cs then Scanned (JBool True) (drop 4 cs)
      else if starts_with ''false'' cs then Scanned (JBool False) (drop 5 cs)
      else if starts_with ''NaN'' cs then Scanned (JFloat NaN) (drop 3 cs)
      else if starts_with ''Infinity'' cs then Scanned (JFloat (Infinity False)) (drop 8 cs)
      else if starts_with ''-Infinity'' cs then Scanned (JFloat (Infinity True)) (drop 9 cs)
      else scan_number cs)"
| "parse_array 0 cs acc = Invalid"
| "parse_array (Suc n) cs acc =
     (case parse_value n cs of
        Invalid \<Rightarrow> Invalid
      | Refused \<Rightarrow> Refused
      | Scanned v rest \<Rightarrow>
          if starts_with '']'' (skip_ws rest) then Scanned (acc @ [v]) (drop 1 (skip_ws rest))
          else if starts_with '','' (skip_ws rest)
          then parse_array n (skip_ws (drop 1 (skip_ws rest))) (acc @ [v])
          else Invalid)"
| "parse_object 0 cs acc = Invalid"
| "parse_object (Suc n) cs acc =
     (if \<not> starts_with [CHR 0x22] cs then Invalid
      else
        (case scan_string (length cs) (drop 1 cs) of
           None \<Rightarrow> Invalid
         | Some (k, rest) \<Rightarrow>
             if \<not> starts_with '':'' (skip_ws rest) then Invalid
             else
               (case parse_value n (skip_ws (drop 1 (skip_ws rest))) of
                  Invalid \<Rightarrow> Invalid
                | Refused \<Rightarrow> Refused
                | Scanned v rest' \<Rightarrow>
                    if starts_with ''}'' (skip_ws rest')
                    then Scanned (dict_set acc k v) (drop 1 (skip_ws rest'))
                    else if starts_with '','' (skip_ws rest')
                    then parse_object n (skip_ws (drop 1 (skip_ws rest'))) (dict_set acc k v)
                    else Invalid)))"

definition json_loads :: "string \<Rightarrow> decoded" where
  "json_loads s =
     (case parse_value (Suc (length s)) (skip_ws s) of
        Scanned v rest \<Rightarrow> if skip_ws rest = [] then Decoded v else JSONDecodeError
      | Invalid \<Rightarrow> JSONDecodeError
      | Refused \<Rightarrow> OtherError)"

section \<open>Configuration\<close>

text \<open>
  What the process finds around it. The three environment variables are \<open>None\<close>
  when unset. \<open>interval_value\<close> is the value of
  \<^verbatim>\<open>int(os.getenv("BUZZ_INTERVAL_SECONDS", 1))\<close>, \<open>None\<close> when \<^verbatim>\<open>int\<close> raises
  \<^verbatim>\<open>ValueError\<close>. The helpers of \<^verbatim>\<open>utils/utils_producer.py\<close> are not among the
  sources and are taken by what they do: \<open>services_exit\<close> is \<open>None\<close> when
  \<^verbatim>\<open>verify_services\<close> returns and \<open>Some c\<close> when it ends the process with status
  \<open>c\<close>; \<open>producer_created\<close> tells whether \<^verbatim>\<open>create_kafka_producer\<close> returns a
  producer; \<open>topic_created\<close> tells whether \<^verbatim>\<open>create_kafka_topic\<close> returns without
  raising.

  \<open>data_file k\<close> is the data file as the \<open>k\<close>-th \<^verbatim>\<open>open\<close> finds it (counted from
  zero), and \<open>events i\<close> is what happens around the \<open>i\<close>-th iteration of the sending
  loop.
\<close>

datatype file_state =
    Missing \<comment> \<open>\<^verbatim>\<open>open\<close> raises \<^verbatim>\<open>FileNotFoundError\<close>\<close>
  | Broken \<comment> \<open>opening or reading raises another exception, such as
      \<^verbatim>\<open>PermissionError\<close> or \<^verbatim>\<open>UnicodeDecodeError\<close>\<close>
  | Text string \<comment> \<open>the text that is read\<close>

datatype event =
    SendOk \<comment> \<open>\<^verbatim>\<open>producer.send\<close> returns\<close>
  | SendRaises \<comment> \<open>\<^verbatim>\<open>producer.send\<close> raises an exception\<close>
  | Interrupt \<comment> \<open>\<^verbatim>\<open>KeyboardInterrupt\<close> arrives before the generator is resumed:
      during the sleep of the iteration before, or before the first record\<close>

record environment =
  BUZZ_TOPIC :: "string option"
  interval_value :: "int option"
  CUSTOM_MESSAGE :: "string option"
  services_exit :: "nat option"
  data_file_exists :: bool
  data_file :: "nat \<Rightarrow> file_state"
  producer_created :: bool
  topic_created :: bool
  events :: "nat \<Rightarrow> event"

definition get_kafka_topic :: "environment \<Rightarrow> string" where
  "get_kafka_topic env =
     (case BUZZ_TOPIC env of None \<Rightarrow> ''unknown_topic'' | Some topic \<Rightarrow> topic)"

definition get_message_interval :: "environment \<Rightarrow> int option" where
  "get_message_interval env = interval_value env"

text \<open>What a call gives its caller: a value, or an exception that it does not catch.\<close>

datatype 'a call = Returns 'a | Raises

text \<open>
  \<^verbatim>\<open>get_custom_message\<close>: Python's \<^verbatim>\<open>None\<close> is \<open>JNull\<close>, whether the function
  returns it for an unset or empty variable or the decoder returns it for \<^verbatim>\<open>null\<close>.
  The \<^verbatim>\<open>try\<close> statement catches \<^verbatim>\<open>json.JSONDecodeError\<close> only, so every other
  exception of the decoder leaves the function.
\<close>

definition get_custom_message :: "(string \<Rightarrow> decoded) \<Rightarrow> string option \<Rightarrow> json call" where
  "get_custom_message loads custom_message =
     (case custom_message of
        None \<Rightarrow> Returns JNull
      | Some s \<Rightarrow>
          if s \<noteq> [] then
            (case loads s of
               Decoded message_obj \<Rightarrow> Returns message_obj
             | JSONDecodeError \<Rightarrow> Returns (JObj [(''message'', JStr s)])
             | OtherError \<Rightarrow> Raises)
          else Returns JNull)"

section \<open>Message generators\<close>

text \<open>What resuming a generator with \<^verbatim>\<open>next\<close> gives its caller.\<close>

datatype resumption =
    Yield json
  | Raise_SystemExit nat
  | Raise_StopIteration

text \<open>
  One resumption of the generator of \<^verbatim>\<open>generate_messages\<close>. Its state is the part of
  the current list that the \<^verbatim>\<open>for\<close> loop has not reached yet, and the number of
  calls of \<^verbatim>\<open>open\<close> so far (a call that raises counts); a fresh generator has the
  state \<open>([], 0)\<close>. With
  nothing pending the \<^verbatim>\<open>while True\<close> loop opens and loads the file again, which is the
  recursive call when the list is empty. \<open>None\<close> is a resumption that never returns.
\<close>

partial_function (option) generate_messages ::
  "(string \<Rightarrow> decoded) \<Rightarrow> (nat \<Rightarrow> file_state) \<Rightarrow> json list \<times> nat
     \<Rightarrow> (resumption \<times> json list \<times> nat) option"
where
  "generate_messages loads data st =
     (case fst st of
        buzz_entry # rest \<Rightarrow> Some (Yield buzz_entry, rest, snd st)
      | [] \<Rightarrow>
          (case data (snd st) of
             Missing \<Rightarrow> Some (Raise_SystemExit 1, [], Suc (snd st))
           | Broken \<Rightarrow> Some (Raise_SystemExit 3, [], Suc (snd st))
           | Text s \<Rightarrow>
               (case loads s of
                  JSONDecodeError \<Rightarrow> Some (Raise_SystemExit 2, [], Suc (snd st))
                | OtherError \<Rightarrow> Some (Raise_SystemExit 3, [], Suc (snd st))
                | Decoded json_data \<Rightarrow>
                    (case json_data of
                       JArr entries \<Rightarrow> generate_messages loads data (entries, Suc (snd st))
                     | _ \<Rightarrow> Some (Raise_SystemExit 3, [], Suc (snd st))))))"

declare generate_messages.simps [code]

text \<open>One resumption of the generator of \<^verbatim>\<open>generate_custom_message\<close>.\<close>

definition generate_custom_message :: "json \<Rightarrow> resumption" where
  "generate_custom_message custom_msg = Yield custom_msg"

text \<open>
  A generator object: the one of \<^verbatim>\<open>generate_custom_message\<close> with its argument, the
  one of \<^verbatim>\<open>generate_messages\<close> with its state, or a generator that has ended (by an
  exception) after so many openings of the file.
\<close>

datatype message_generator =
    CustomGenerator json
  | FileGenerator "json list" nat
  | Ended nat

fun file_opens :: "message_generator \<Rightarrow> nat" where
  "file_opens (CustomGenerator custom_msg) = 0"
| "file_opens (FileGenerator pending k) = k"
| "file_opens (Ended k) = k"

definition next_message ::
  "(string \<Rightarrow> decoded) \<Rightarrow> (nat \<Rightarrow> file_state) \<Rightarrow> message_generator
     \<Rightarrow> (resumption \<times> message_generator) option"
where
  "next_message loads data gen =
     (case gen of
        CustomGenerator custom_msg \<Rightarrow>
          Some (generate_custom_message custom_msg, CustomGenerator custom_msg)
      | FileGenerator pending k \<Rightarrow>
          (case generate_messages loads data (pending, k) of
             None \<Rightarrow> None
           | Some (Yield buzz_entry, pending', k') \<Rightarrow>
               Some (Yield buzz_entry, FileGenerator pending' k')
           | Some (r, pending', k') \<Rightarrow> Some (r, Ended k'))
      | Ended k \<Rightarrow> Some (Raise_StopIteration, Ended k))"

text \<open>
  The records that \<open>n\<close> resumptions in a row yield, with the generator after them;
  \<open>None\<close> unless each of them yields a record.
\<close>

fun take_messages ::
  "(string \<Rightarrow> decoded) \<Rightarrow> (nat \<Rightarrow> file_state) \<Rightarrow> nat \<Rightarrow> message_generator
     \<Rightarrow> (json list \<times> message_generator) option"
where
  "take_messages loads data 0 gen = Some ([], gen)"
| "take_messages loads data (Suc n) gen =
     (case next_message loads data gen of
        Some (Yield m, gen') \<Rightarrow>
          (case take_messages loads data n gen' of
             Some (ms, gen'') \<Rightarrow> Some (m # ms, gen'')
           | None \<Rightarrow> None)
      | _ \<Rightarrow> None)"

section \<open>The sending loop and the main function\<close>

datatype action = Send string json | Close

datatype status =
    Returned \<comment> \<open>\<^verbatim>\<open>main\<close> returns: exit status 0\<close>
  | SystemExit nat \<comment> \<open>\<^verbatim>\<open>sys.exit\<close> with this status\<close>
  | Uncaught \<comment> \<open>an exception that nothing catches: exit status 1\<close>

fun exit_code :: "status \<Rightarrow> nat" where
  "exit_code Returned = 0"
| "exit_code (SystemExit c) = c"
| "exit_code Uncaught = 1"

text \<open>How the body of the \<^verbatim>\<open>try\<close> statement around the loop is left.\<close>

datatype loop_end =
    Exhausted \<comment> \<open>the generator is exhausted and the \<^verbatim>\<open>for\<close> loop ends\<close>
  | Interrupted \<comment> \<open>\<^verbatim>\<open>KeyboardInterrupt\<close>, caught by the first handler\<close>
  | Failed \<comment> \<open>an exception of class \<^verbatim>\<open>Exception\<close>, caught by the second handler\<close>
  | Exiting nat \<comment> \<open>\<^verbatim>\<open>SystemExit\<close> from the generator, caught by no handler\<close>

text \<open>
  The \<^verbatim>\<open>for\<close> loop of \<^verbatim>\<open>main\<close> from its \<open>i\<close>-th iteration on, with the calls of
  \<^verbatim>\<open>producer.send\<close> made so far. \<^verbatim>\<open>time.sleep\<close> raises \<^verbatim>\<open>ValueError\<close> for a
  negative interval. \<open>None\<close> is a loop that never ends.
\<close>

partial_function (option) send_loop ::
  "(string \<Rightarrow> decoded) \<Rightarrow> environment \<Rightarrow> string \<Rightarrow> int \<Rightarrow> message_generator \<Rightarrow> nat
     \<Rightarrow> action list \<Rightarrow> (action list \<times> message_generator \<times> loop_end) option"
where
  "send_loop loads env topic interval_secs gen i done =
     (if events env i = Interrupt then Some (done, gen, Interrupted)
      else
        (case next_message loads (data_file env) gen of
           None \<Rightarrow> None
         | Some (r, gen') \<Rightarrow>
             (case r of
                Raise_StopIteration \<Rightarrow> Some (done, gen', Exhausted)
              | Raise_SystemExit c \<Rightarrow> Some (done, gen', Exiting c)
              | Yield message_dict \<Rightarrow>
                  if events env i = SendRaises
                  then Some (done @ [Send topic message_dict], gen', Failed)
                  else if interval_secs < 0
                  then Some (done @ [Send topic message_dict], gen', Failed)
                  else send_loop loads env topic interval_secs gen' (Suc i)
                         (done @ [Send topic message_dict]))))"

declare send_loop.simps [code]

text \<open>
  What a run of \<^verbatim>\<open>main\<close> did: whether \<^verbatim>\<open>DATA_FILE.exists()\<close> was evaluated, how
  often \<^verbatim>\<open>open\<close> was called on the data file, the calls of \<^verbatim>\<open>producer.send\<close> and
  \<^verbatim>\<open>producer.close\<close> in their order, and how the process ended.
\<close>

record outcome =
  exists_checked :: bool
  opens :: nat
  actions :: "action list"
  status :: status

text \<open>
  The part of \<^verbatim>\<open>main\<close> that follows the choice of the generator: the producer and
  the topic are created and the loop runs. The \<^verbatim>\<open>finally\<close> clause closes the
  producer however the loop is left; after it a pending \<^verbatim>\<open>SystemExit\<close> ends the
  process, and otherwise \<^verbatim>\<open>main\<close> returns. \<open>None\<close> is a run that never ends.
\<close>

definition run_producer ::
  "(string \<Rightarrow> decoded) \<Rightarrow> environment \<Rightarrow> string \<Rightarrow> int \<Rightarrow> bool \<Rightarrow> message_generator
     \<Rightarrow> outcome option"
where
  "run_producer loads env topic interval_secs checked message_generator =
     (if \<not> producer_created env then
        Some \<lparr>exists_checked = checked, opens = 0, actions = [], status = SystemExit 3\<rparr>
      else if \<not> topic_created env then
        Some \<lparr>exists_checked = checked, opens = 0, actions = [], status = SystemExit 1\<rparr>
      else
        (case send_loop loads env topic interval_secs message_generator 0 [] of
           None \<Rightarrow> None
         | Some (done, gen, how) \<Rightarrow>
             Some \<lparr>exists_checked = checked, opens = file_opens gen,
                    actions = done @ [Close],
                    status = (case how of Exiting c \<Rightarrow> SystemExit c | _ \<Rightarrow> Returned)\<rparr>))"

text \<open>
  \<^verbatim>\<open>main\<close>: an interval that is not an integer is an exception that nothing catches,
  and so is an exception that leaves \<^verbatim>\<open>get_custom_message\<close>; a true custom message
  selects the generator of \<^verbatim>\<open>generate_custom_message\<close>, and otherwise the data file
  has to exist for the generator of \<^verbatim>\<open>generate_messages\<close>.
\<close>

definition main :: "(string \<Rightarrow> decoded) \<Rightarrow> environment \<Rightarrow> outcome option" where
  "main loads env =
     (case services_exit env of
        Some c \<Rightarrow>
          Some \<lparr>exists_checked = False, opens = 0, actions = [], status = SystemExit c\<rparr>
      | None \<Rightarrow>
          (let topic = get_kafka_topic env in
           case get_message_interval env of
             None \<Rightarrow>
               Some \<lparr>exists_checked = False, opens = 0, actions = [], status = Uncaught\<rparr>
           | Some interval_secs \<Rightarrow>
               (case get_custom_message loads (CUSTOM_MESSAGE env) of
                  Raises \<Rightarrow>
                    Some \<lparr>exists_checked = False, opens = 0, actions = [],
                           status = Uncaught\<rparr>
                | Returns custom_msg \<Rightarrow>
                    if truthy custom_msg then
                      run_producer loads env topic interval_secs False
                        (CustomGenerator custom_msg)
                    else if \<not> data_file_exists env then
                      Some \<lparr>exists_checked = True, opens = 0, actions = [],
                             status = SystemExit 1\<rparr>
                    else run_producer loads env topic interval_secs True
                           (FileGenerator [] 0))))"

text \<open>
  The branch that \<^verbatim>\<open>if custom_msg:\<close> takes in \<^verbatim>\<open>main\<close>, when
  \<^verbatim>\<open>get_custom_message\<close> returns: the custom message, or the data file.
\<close>

definition takes_custom_branch :: "(string \<Rightarrow> decoded) \<Rightarrow> environment \<Rightarrow> bool" where
  "takes_custom_branch loads env =
     (case get_custom_message loads (CUSTOM_MESSAGE env) of
        Returns custom_msg \<Rightarrow> truthy custom_msg
      | Raises \<Rightarrow> False)"

definition takes_file_branch :: "(string \<Rightarrow> decoded) \<Rightarrow> environment \<Rightarrow> bool" where
  "takes_file_branch loads env =
     (case get_custom_message loads (CUSTOM_MESSAGE env) of
        Returns custom_msg \<Rightarrow> \<not> truthy custom_msg
      | Raises \<Rightarrow> False)"

text \<open>
  The conditions under which \<^verbatim>\<open>main\<close> reaches its loop with the interval \<open>iv\<close>, and
  the generator that it has then chosen (none when \<^verbatim>\<open>get_custom_message\<close> raises).
\<close>

definition reaches_loop :: "(string \<Rightarrow> decoded) \<Rightarrow> environment \<Rightarrow> int \<Rightarrow> bool" where
  "reaches_loop loads env iv =
     (services_exit env = None \<and> interval_value env = Some iv \<and>
      (takes_custom_branch loads env \<or> takes_file_branch loads env \<and> data_file_exists env) \<and>
      producer_created env \<and> topic_created env)"

definition chosen_generator ::
  "(string \<Rightarrow> decoded) \<Rightarrow> environment \<Rightarrow> message_generator option"
where
  "chosen_generator loads env =
     (case get_custom_message loads (CUSTOM_MESSAGE env) of
        Returns custom_msg \<Rightarrow>
          Some (if truthy custom_msg then CustomGenerator custom_msg else FileGenerator [] 0)
      | Raises \<Rightarrow> None)"

text \<open>
  An environment in which \<^verbatim>\<open>main\<close> reaches its loop, for runs on concrete inputs: the
  data file, the events of the loop and the custom message are its arguments.
\<close>

definition sample_env ::
  "(nat \<Rightarrow> file_state) \<Rightarrow> (nat \<Rightarrow> event) \<Rightarrow> string option \<Rightarrow> environment"
where
  "sample_env data evs custom =
     \<lparr>BUZZ_TOPIC = Some ''buzz'', interval_value = Some 1, CUSTOM_MESSAGE = custom,
      services_exit = None, data_file_exists = True, data_file = data,
      producer_created = True, topic_created = True, events = evs\<rparr>"

text \<open>
  A data file that holds two messages when it is opened first and is in the state
  \<open>later\<close> at every later opening.
\<close>

definition two_messages :: string where
  \<open>two_messages = ''[{"message":"a"},{"message":"b"}]''\<close>

definition two_then :: "file_state \<Rightarrow> nat \<Rightarrow> file_state" where
  "two_then later = (\<lambda>k. if k = 0 then Text two_messages else later)"

text \<open>Events: \<open>n\<close> sends that return, and then \<open>e\<close>.\<close>

definition sends_then :: "nat \<Rightarrow> event \<Rightarrow> nat \<Rightarrow> event" where
  "sends_then n e = (\<lambda>i. if i < n then SendOk else e)"

section \<open>One resumption of the file generator\<close>

lemma generate_messages_pending:
  "generate_messages loads data (m # rest, k) = Some (Yield m, rest, k)"
  by (subst generate_messages.simps) simp

lemma generate_messages_reload:
  "data k = Text s \<Longrightarrow> loads s = Decoded (JArr xs) \<Longrightarrow>
   generate_messages loads data ([], k) = generate_messages loads data (xs, Suc k)"
  by (subst generate_messages.simps) simp

lemma generate_messages_missing:
  "data k = Missing \<Longrightarrow>
   generate_messages loads data ([], k) = Some (Raise_SystemExit 1, [], Suc k)"
  by (subst generate_messages.simps) simp

lemma generate_messages_broken:
  "data k = Broken \<Longrightarrow>
   generate_messages loads data ([], k) = Some (Raise_SystemExit 3, [], Suc k)"
  by (subst generate_messages.simps) simp

lemma generate_messages_syntax:
  "data k = Text s \<Longrightarrow> loads s = JSONDecodeError \<Longrightarrow>
   generate_messages loads data ([], k) = Some (Raise_SystemExit 2, [], Suc k)"
  by (subst generate_messages.simps) simp

lemma generate_messages_other:
  "data k = Text s \<Longrightarrow> loads s = OtherError \<Longrightarrow>
   generate_messages loads data ([], k) = Some (Raise_SystemExit 3, [], Suc k)"
  by (subst generate_messages.simps) simp

lemma generate_messages_not_list:
  "data k = Text s \<Longrightarrow> loads s = Decoded v \<Longrightarrow> \<not> is_list v \<Longrightarrow>
   generate_messages loads data ([], k) = Some (Raise_SystemExit 3, [], Suc k)"
  by (subst generate_messages.simps) (cases v; simp)

lemma generate_messages_empty_forever:
  assumes "generate_messages loads data st = Some y"
  shows "fst st = [] \<longrightarrow> (\<exists>j\<ge>snd st. \<forall>s. data j = Text s \<longrightarrow> loads s \<noteq> Decoded (JArr []))"
proof (rule generate_messages.raw_induct[OF _ assms])
  fix gm l f st y
  assume IH: "\<And>l f st y. gm l f st = Some y \<Longrightarrow>
      fst st = [] \<longrightarrow> (\<exists>j\<ge>snd st. \<forall>s. f j = Text s \<longrightarrow> l s \<noteq> Decoded (JArr []))"
    and body: "(case fst st of
        [] \<Rightarrow> (case f (snd st) of
             Missing \<Rightarrow> Some (Raise_SystemExit 1, [], Suc (snd st))
           | Broken \<Rightarrow> Some (Raise_SystemExit 3, [], Suc (snd st))
           | Text s \<Rightarrow>
               (case l s of JSONDecodeError \<Rightarrow> Some (Raise_SystemExit 2, [], Suc (snd st))
                | OtherError \<Rightarrow> Some (Raise_SystemExit 3, [], Suc (snd st))
                | Decoded json_data \<Rightarrow>
                    (case json_data of
                       JArr entries \<Rightarrow> gm l f (entries, Suc (snd st))
                     | _ \<Rightarrow> Some (Raise_SystemExit 3, [], Suc (snd st)))))
      | buzz_entry # rest \<Rightarrow> Some (Yield buzz_entry, rest, snd st)) = Some y"
  show "fst st = [] \<longrightarrow> (\<exists>j\<ge>snd st. \<forall>s. f j = Text s \<longrightarrow> l s \<noteq> Decoded (JArr []))"
  proof
    assume empty: "fst st = []"
    show "\<exists>j\<ge>snd st. \<forall>s. f j = Text s \<longrightarrow> l s \<noteq> Decoded (JArr [])"
    proof (cases "\<forall>s. f (snd st) = Text s \<longrightarrow> l s \<noteq> Decoded (JArr [])")
      case True
      then show ?thesis by blast
    next
      case False
      then obtain s where s: "f (snd st) = Text s" "l s = Decoded (JArr [])" by blast
      with body empty have "gm l f ([], Suc (snd st)) = Some y"
        by simp
      from IH[OF this] obtain j where "j \<ge> Suc (snd st)"
        "\<forall>s. f j = Text s \<longrightarrow> l s \<noteq> Decoded (JArr [])" by auto
      then show ?thesis by (meson Suc_leD)
    qed
  qed
qed

lemma generate_messages_empty_diverges:
  assumes "\<forall>j\<ge>k. \<exists>s. data j = Text s \<and> loads s = Decoded (JArr [])"
  shows "generate_messages loads data ([], k) = None"
proof (cases "generate_messages loads data ([], k)")
  case None
  then show ?thesis .
next
  case (Some y)
  from generate_messages_empty_forever[OF Some] assms show ?thesis by fastforce
qed

lemma send_loop_advance:
  "take_messages loads (data_file env) n gen = Some (ms, gen') \<Longrightarrow>
   \<forall>j<n. events env (i + j) = SendOk \<Longrightarrow> 0 \<le> iv \<Longrightarrow>
   send_loop loads env topic iv gen i done =
   send_loop loads env topic iv gen' (i + n) (done @ map (Send topic) ms)"
proof (induction n arbitrary: gen i "done" ms)
  case 0
  then show ?case by simp
next
  case (Suc n)
  from Suc.prems(1) obtain m g1 ms' where
    nx: "next_message loads (data_file env) gen = Some (Yield m, g1)" and
    tk: "take_messages loads (data_file env) n g1 = Some (ms', gen')" and
    ms: "ms = m # ms'"
    by (auto split: option.splits resumption.splits)
  from Suc.prems(2) have e0: "events env i = SendOk" by force
  from Suc.prems(2) have en: "\<forall>j<n. events env (Suc i + j) = SendOk" by force
  have "send_loop loads env topic iv gen i done =
        send_loop loads env topic iv g1 (Suc i) (done @ [Send topic m])"
    using nx e0 Suc.prems(3) by (subst send_loop.simps) simp
  also have "\<dots> = send_loop loads env topic iv gen' (Suc i + n)
                    ((done @ [Send topic m]) @ map (Send topic) ms')"
    by (rule Suc.IH[OF tk en Suc.prems(3)])
  finally show ?case by (simp add: ms)
qed


lemma next_message_pending:
  "next_message loads data (FileGenerator (m # rest) k) = Some (Yield m, FileGenerator rest k)"
  by (simp add: next_message_def generate_messages_pending)

lemma next_message_reload:
  "data k = Text s \<Longrightarrow> loads s = Decoded (JArr (m # rest)) \<Longrightarrow>
   next_message loads data (FileGenerator [] k) = Some (Yield m, FileGenerator rest (Suc k))"
  by (simp add: next_message_def generate_messages_reload generate_messages_pending)

lemma cycle_step:
  assumes f: "\<forall>k. data k = Text s" and l: "loads s = Decoded (JArr xs)" and ne: "xs \<noteq> []"
  shows "next_message loads data
           (FileGenerator (drop (Suc (m mod length xs)) xs) (m div length xs)) =
         Some (Yield (xs ! (Suc m mod length xs)),
               FileGenerator (drop (Suc (Suc m mod length xs)) xs) (Suc m div length xs))"
proof (cases "Suc (m mod length xs) = length xs")
  case True
  from ne obtain x rest where xs: "xs = x # rest" by (cases xs) auto
  from True have m0: "Suc m mod length xs = 0" by (simp add: mod_Suc)
  then have d: "Suc m div length xs = Suc (m div length xs)" by (simp add: div_Suc)
  have "next_message loads data (FileGenerator [] (m div length xs)) =
        Some (Yield x, FileGenerator rest (Suc (m div length xs)))"
    using f l xs by (intro next_message_reload[where s = s]) auto
  then show ?thesis using True m0 d xs by simp
next
  case False
  from ne have "m mod length xs < length xs" by simp
  with False have lt: "Suc (m mod length xs) < length xs" by linarith
  have m1: "Suc m mod length xs = Suc (m mod length xs)" using False by (simp add: mod_Suc)
  then have d: "Suc m div length xs = m div length xs" by (simp add: div_Suc)
  have "drop (Suc (m mod length xs)) xs =
        xs ! Suc (m mod length xs) # drop (Suc (Suc (m mod length xs))) xs"
    using lt by (simp add: Cons_nth_drop_Suc)
  then show ?thesis using m1 d by (simp add: next_message_pending)
qed

lemma cycle_take:
  assumes f: "\<forall>k. data k = Text s" and l: "loads s = Decoded (JArr xs)" and ne: "xs \<noteq> []"
  shows "take_messages loads data n
           (FileGenerator (drop (Suc (m mod length xs)) xs) (m div length xs)) =
         Some (map (\<lambda>i. xs ! ((Suc m + i) mod length xs)) [0..<n],
               FileGenerator (drop (Suc ((m + n) mod length xs)) xs) ((m + n) div length xs))"
proof (induction n arbitrary: m)
  case 0
  show ?case by simp
next
  case (Suc n)
  show ?case
    using cycle_step[where data = data and loads = "loads" and m = m, OF f l ne] Suc.IH[of "Suc m"]
    by (simp add: map_upt_Suc del: upt_Suc)
qed

section \<open>The ways out of the loop\<close>

lemma send_loop_interrupt:
  "events env i = Interrupt \<Longrightarrow>
   send_loop loads env topic iv gen i done = Some (done, gen, Interrupted)"
  by (subst send_loop.simps) simp

lemma send_loop_send_raises:
  "events env i = SendRaises \<Longrightarrow>
   next_message loads (data_file env) gen = Some (Yield m, gen') \<Longrightarrow>
   send_loop loads env topic iv gen i done = Some (done @ [Send topic m], gen', Failed)"
  by (subst send_loop.simps) simp

lemma send_loop_exit:
  "events env i \<noteq> Interrupt \<Longrightarrow>
   next_message loads (data_file env) gen = Some (Raise_SystemExit c, gen') \<Longrightarrow>
   send_loop loads env topic iv gen i done = Some (done, gen', Exiting c)"
  by (subst send_loop.simps) simp

lemma chosen_generator_file:
  "takes_file_branch loads env \<Longrightarrow> chosen_generator loads env = Some (FileGenerator [] 0)"
  by (cases "get_custom_message loads (CUSTOM_MESSAGE env)")
    (simp_all add: takes_file_branch_def chosen_generator_def)

lemma file_branch_not_custom:
  "takes_file_branch loads env \<Longrightarrow> \<not> takes_custom_branch loads env"
  by (cases "get_custom_message loads (CUSTOM_MESSAGE env)")
    (simp_all add: takes_file_branch_def takes_custom_branch_def)

lemma chosen_generator_custom:
  "get_custom_message loads (CUSTOM_MESSAGE env) = Returns c \<Longrightarrow> truthy c \<Longrightarrow>
   chosen_generator loads env = Some (CustomGenerator c) \<and> takes_custom_branch loads env"
  by (simp add: takes_custom_branch_def chosen_generator_def)

lemma main_reaches_loop:
  "reaches_loop loads env iv \<Longrightarrow> chosen_generator loads env = Some gen \<Longrightarrow>
   main loads env =
   run_producer loads env (get_kafka_topic env) iv (\<not> takes_custom_branch loads env) gen"
  by (auto simp: reaches_loop_def main_def chosen_generator_def get_message_interval_def
      takes_custom_branch_def takes_file_branch_def Let_def split: call.splits)

lemma main_outcome:
  assumes "reaches_loop loads env iv" and "chosen_generator loads env = Some gen"
    and "send_loop loads env (get_kafka_topic env) iv gen 0 [] = Some (done, gen', how)"
  shows "main loads env =
         Some \<lparr>exists_checked = (\<not> takes_custom_branch loads env),
               opens = file_opens gen', actions = done @ [Close],
               status = (case how of Exiting c \<Rightarrow> SystemExit c | _ \<Rightarrow> Returned)\<rparr>"
proof -
  from assms(1) have "producer_created env" "topic_created env"
    by (simp_all add: reaches_loop_def)
  then show ?thesis
    using assms(3) by (simp add: main_reaches_loop[OF assms(1,2)] run_producer_def)
qed

lemma main_after_sends:
  assumes r: "reaches_loop loads env iv" and iv: "0 \<le> iv"
    and ch: "chosen_generator loads env = Some gen0"
    and tk: "take_messages loads (data_file env) n gen0 = Some (ms, gen)"
    and ok: "\<forall>i<n. events env i = SendOk"
    and fin: "send_loop loads env (get_kafka_topic env) iv gen n
                (map (Send (get_kafka_topic env)) ms) = Some (done, gen', how)"
  shows "main loads env =
         Some \<lparr>exists_checked = (\<not> takes_custom_branch loads env),
               opens = file_opens gen', actions = done @ [Close],
               status = (case how of Exiting c \<Rightarrow> SystemExit c | _ \<Rightarrow> Returned)\<rparr>"
proof -
  from ok have "\<forall>j<n. events env (0 + j) = SendOk" by simp
  from send_loop_advance[OF tk this iv, of "get_kafka_topic env" "[]"] fin
  have "send_loop loads env (get_kafka_topic env) iv gen0 0 [] = Some (done, gen', how)"
    by simp
  from main_outcome[OF r ch this] show ?thesis .
qed

lemma next_message_failure:
  assumes "\<not> (\<exists>s xs. data k = Text s \<and> loads s = Decoded (JArr xs))"
  shows "next_message loads data (FileGenerator [] k) =
         Some (Raise_SystemExit
                 (case data k of Missing \<Rightarrow> 1 | Broken \<Rightarrow> 3
                  | Text s \<Rightarrow> (case loads s of JSONDecodeError \<Rightarrow> 2 | _ \<Rightarrow> 3)),
               Ended (Suc k))"
proof (cases "data k")
  case Missing
  then show ?thesis by (simp add: next_message_def generate_messages_missing)
next
  case Broken
  then show ?thesis by (simp add: next_message_def generate_messages_broken)
next
  case (Text s)
  show ?thesis
  proof (cases "loads s")
    case JSONDecodeError
    with Text show ?thesis by (simp add: next_message_def generate_messages_syntax)
  next
    case OtherError
    with Text show ?thesis by (simp add: next_message_def generate_messages_other)
  next
    case (Decoded v)
    with Text assms have "\<not> is_list v" by (cases v) auto
    with Text Decoded show ?thesis
      by (simp add: next_message_def generate_messages_not_list[where s = s and v = v])
  qed
qed

lemma main_source_failure:
  assumes r: "reaches_loop loads env iv" and iv: "0 \<le> iv"
    and c: "takes_file_branch loads env"
    and tk: "take_messages loads (data_file env) n (FileGenerator [] 0) =
             Some (ms, FileGenerator [] k)"
    and ok: "\<forall>i<n. events env i = SendOk" and ni: "events env n \<noteq> Interrupt"
    and bad: "\<not> (\<exists>s xs. data_file env k = Text s \<and> loads s = Decoded (JArr xs))"
  shows "main loads env =
         Some \<lparr>exists_checked = True, opens = Suc k,
               actions = map (Send (get_kafka_topic env)) ms @ [Close],
               status = SystemExit
                 (case data_file env k of Missing \<Rightarrow> 1 | Broken \<Rightarrow> 3
                  | Text s \<Rightarrow> (case loads s of JSONDecodeError \<Rightarrow> 2 | _ \<Rightarrow> 3))\<rparr>"
proof -
  let ?c = "case data_file env k of Missing \<Rightarrow> 1 | Broken \<Rightarrow> 3
            | Text s \<Rightarrow> (case loads s of JSONDecodeError \<Rightarrow> 2 | _ \<Rightarrow> 3)"
  have fin: "send_loop loads env (get_kafka_topic env) iv (FileGenerator [] k) n
               (map (Send (get_kafka_topic env)) ms) =
             Some (map (Send (get_kafka_topic env)) ms, Ended (Suc k), Exiting ?c)"
    by (rule send_loop_exit[OF ni next_message_failure[where data = "data_file env"
            and loads = "loads" and k = k, OF bad]])
  from main_after_sends[OF r iv chosen_generator_file[OF c] tk ok fin]
    file_branch_not_custom[OF c]
  show ?thesis by simp
qed

section \<open>Cyclic replay of the data file\<close>

text \<open>
  Claim C1. When every opening of the data file finds the same text, and the text decodes
  to a non-empty list \<open>xs\<close>, the first \<open>n\<close> resumptions of a fresh generator of
  \<^verbatim>\<open>generate_messages\<close> yield \<open>xs ! (i mod length xs)\<close> for \<open>i = 0, \<dots>, n - 1\<close>:
  the elements in the order of the file, pass after pass, none left out, doubled or
  moved. The generator has then opened the file once for each pass that it has started,
  \<open>(length xs - 1 + n) div length xs\<close> times, and what it still holds is the rest of
  the current pass.
\<close>

theorem generate_messages_cycles:
  assumes "\<forall>k. data k = Text s" and "loads s = Decoded (JArr xs)" and "xs \<noteq> []"
  shows "take_messages loads data n (FileGenerator [] 0) =
         Some (map (\<lambda>i. xs ! (i mod length xs)) [0..<n],
               FileGenerator (drop (Suc ((length xs - 1 + n) mod length xs)) xs)
                 ((length xs - 1 + n) div length xs))"
proof -
  from assms(3) have len: "0 < length xs" by simp
  then have a: "Suc ((length xs - 1) mod length xs) = length xs" by simp
  from len have b: "(length xs - 1) div length xs = 0" by simp
  from len have c: "\<And>i. (Suc (length xs - 1) + i) mod length xs = i mod length xs" by simp
  show ?thesis
    using cycle_take[where data = data and loads = "loads" and n = n and m = "length xs - 1",
        OF assms]
    by (simp only: a b c drop_all order_refl)
qed

lemma loads_two_messages:
  \<open>json_loads ''[{"message":"a"},{"message":"b"}]'' =
    Decoded (JArr [JObj [(''message'', JStr ''a'')], JObj [(''message'', JStr ''b'')]])\<close>
  by code_simp

theorem generate_messages_cycles_witness:
  \<open>take_messages json_loads (\<lambda>k. Text ''[{"message":"a"},{"message":"b"}]'') 5
     (FileGenerator [] 0) =
   Some ([JObj [(''message'', JStr ''a'')], JObj [(''message'', JStr ''b'')],
          JObj [(''message'', JStr ''a'')], JObj [(''message'', JStr ''b'')],
          JObj [(''message'', JStr ''a'')]],
         FileGenerator [JObj [(''message'', JStr ''b'')]] 3)\<close>
proof -
  let ?xs = "[JObj [(''message'', JStr ''a'')], JObj [(''message'', JStr ''b'')]]"
  have records: "map (\<lambda>i. ?xs ! (i mod length ?xs)) [0..<5] =
      [JObj [(''message'', JStr ''a'')], JObj [(''message'', JStr ''b'')],
       JObj [(''message'', JStr ''a'')], JObj [(''message'', JStr ''b'')],
       JObj [(''message'', JStr ''a'')]]"
    by code_simp
  have pending: "drop (Suc ((length ?xs - 1 + 5) mod length ?xs)) ?xs =
      [JObj [(''message'', JStr ''b'')]]"
    by code_simp
  have opened: "(length ?xs - 1 + 5) div length ?xs = 3"
    by code_simp
  have nonempty: "?xs \<noteq> []" by simp
  show ?thesis
    using generate_messages_cycles[where
        data = \<open>\<lambda>k. Text ''[{"message":"a"},{"message":"b"}]''\<close> and
        loads = json_loads and n = 5, OF _ loads_two_messages nonempty]
    by (simp only: records pending opened simp_thms)
qed

section \<open>Sample runs\<close>

lemma loads_two: "json_loads two_messages =
    Decoded (JArr [JObj [(''message'', JStr ''a'')], JObj [(''message'', JStr ''b'')]])"
  by code_simp

lemma take_two_then:
  "take_messages json_loads (two_then later) 2 (FileGenerator [] 0) =
   Some ([JObj [(''message'', JStr ''a'')], JObj [(''message'', JStr ''b'')]],
         FileGenerator [] 1)"
proof -
  have "two_then later 0 = Text two_messages" by (simp add: two_then_def)
  from next_message_reload[where data = "two_then later" and k = 0 and loads = json_loads,
      OF this] loads_two
  have 1: "next_message json_loads (two_then later) (FileGenerator [] 0) =
     Some (Yield (JObj [(''message'', JStr ''a'')]),
           FileGenerator [JObj [(''message'', JStr ''b'')]] (Suc 0))" by simp
  show ?thesis
    by (simp add: numeral_2_eq_2 1 next_message_pending)
qed

lemma sample_reaches_loop: "reaches_loop loads (sample_env data evs None) 1"
  by (simp add: reaches_loop_def sample_env_def get_custom_message_def takes_file_branch_def)

lemma sample_no_custom: "takes_file_branch loads (sample_env data evs None)"
  by (simp add: sample_env_def get_custom_message_def takes_file_branch_def)

lemma loads_broken_text: "json_loads ''{oops'' = JSONDecodeError"
  by code_simp

lemma loads_not_a_list:
  \<open>json_loads ''{"not": "a list"}'' = Decoded (JObj [(''not'', JStr ''a list'')])\<close>
  by code_simp

lemma sample_fields:
  "data_file (sample_env data evs custom) = data"
  "events (sample_env data evs custom) = evs"
  "CUSTOM_MESSAGE (sample_env data evs custom) = custom"
  "get_kafka_topic (sample_env data evs custom) = ''buzz''"
  by (simp_all add: sample_env_def get_kafka_topic_def)

lemma sample_take:
  "take_messages json_loads (data_file (sample_env (two_then later) evs custom)) 2
     (FileGenerator [] 0) =
   Some ([JObj [(''message'', JStr ''a'')], JObj [(''message'', JStr ''b'')]],
         FileGenerator [] 1)"
  by (simp add: sample_fields take_two_then)

lemma two_then_later: "0 < k \<Longrightarrow> two_then later k = later"
  by (simp add: two_then_def)

section \<open>Exit codes of a failing data file\<close>

text \<open>
  Claim C2. Let \<^verbatim>\<open>main\<close> reach its loop with the file generator, let \<open>n\<close> records
  have been sent, the generator having consumed its list after \<open>k\<close> openings, and let no
  interrupt arrive before the generator is resumed. If the \<open>k\<close>-th opening then finds the
  file missing, the process ends with exit code 1; if the text is not valid JSON, with
  exit code 2; and if opening, reading or decoding fails otherwise, or the text decodes
  to a value that is not a list, with exit code 3. With \<open>n = 0\<close> and \<open>k = 0\<close> this is the first
  opening of the file.
\<close>

theorem source_failure_exit_codes:
  assumes "reaches_loop loads env iv" and "0 \<le> iv"
    and "takes_file_branch loads env"
    and "take_messages loads (data_file env) n (FileGenerator [] 0) =
         Some (ms, FileGenerator [] k)"
    and "\<forall>i<n. events env i = SendOk" and "events env n \<noteq> Interrupt"
  shows "(data_file env k = Missing \<longrightarrow>
            map_option (exit_code \<circ> status) (main loads env) = Some 1) \<and>
         (\<forall>s. data_file env k = Text s \<and> loads s = JSONDecodeError \<longrightarrow>
            map_option (exit_code \<circ> status) (main loads env) = Some 2) \<and>
         (data_file env k = Broken \<or>
          (\<exists>s v. data_file env k = Text s \<and> loads s = Decoded v \<and> \<not> is_list v) \<or>
          (\<exists>s. data_file env k = Text s \<and> loads s = OtherError) \<longrightarrow>
            map_option (exit_code \<circ> status) (main loads env) = Some 3)"
proof (intro conjI impI allI)
  assume "data_file env k = Missing"
  then show "map_option (exit_code \<circ> status) (main loads env) = Some 1"
    using main_source_failure[OF assms] by simp
next
  fix s assume "data_file env k = Text s \<and> loads s = JSONDecodeError"
  then show "map_option (exit_code \<circ> status) (main loads env) = Some 2"
    using main_source_failure[OF assms] by simp
next
  assume "data_file env k = Broken \<or>
          (\<exists>s v. data_file env k = Text s \<and> loads s = Decoded v \<and> \<not> is_list v) \<or>
          (\<exists>s. data_file env k = Text s \<and> loads s = OtherError)"
  then consider "data_file env k = Broken"
    | s v where "data_file env k = Text s" "loads s = Decoded v" "\<not> is_list v"
    | s where "data_file env k = Text s" "loads s = OtherError"
    by blast
  then show "map_option (exit_code \<circ> status) (main loads env) = Some 3"
  proof cases
    case 1
    then show ?thesis using main_source_failure[OF assms] by simp
  next
    case 2
    then have "\<not> (\<exists>s xs. data_file env k = Text s \<and> loads s = Decoded (JArr xs))" by auto
    from main_source_failure[OF assms this] 2 show ?thesis by simp
  next
    case 3
    then have "\<not> (\<exists>s xs. data_file env k = Text s \<and> loads s = Decoded (JArr xs))" by auto
    from main_source_failure[OF assms this] 3 show ?thesis by simp
  qed
qed

theorem source_failure_exit_codes_witness:
  \<open>map_option (exit_code \<circ> status)
     (main json_loads (sample_env (two_then Missing) (\<lambda>i. SendOk) None)) = Some 1 \<and>
   map_option (exit_code \<circ> status)
     (main json_loads (sample_env (two_then (Text ''{oops'')) (\<lambda>i. SendOk) None)) = Some 2 \<and>
   map_option (exit_code \<circ> status)
     (main json_loads (sample_env (two_then Broken) (\<lambda>i. SendOk) None)) = Some 3 \<and>
   map_option (exit_code \<circ> status)
     (main json_loads (sample_env (two_then (Text ''{"not": "a list"}'')) (\<lambda>i. SendOk) None)) =
     Some 3\<close>
proof -
  have run: "(later = Missing \<longrightarrow>
        map_option (exit_code \<circ> status)
          (main json_loads (sample_env (two_then later) (\<lambda>i. SendOk) None)) = Some 1) \<and>
     (\<forall>s. later = Text s \<and> json_loads s = JSONDecodeError \<longrightarrow>
        map_option (exit_code \<circ> status)
          (main json_loads (sample_env (two_then later) (\<lambda>i. SendOk) None)) = Some 2) \<and>
     (later = Broken \<or> (\<exists>s v. later = Text s \<and> json_loads s = Decoded v \<and> \<not> is_list v) \<or>
      (\<exists>s. later = Text s \<and> json_loads s = OtherError) \<longrightarrow>
        map_option (exit_code \<circ> status)
          (main json_loads (sample_env (two_then later) (\<lambda>i. SendOk) None)) = Some 3)"
    for later
    using source_failure_exit_codes[where loads = json_loads and iv = 1 and n = 2 and k = 1
        and env = "sample_env (two_then later) (\<lambda>i. SendOk) None",
        OF sample_reaches_loop zero_le_one sample_no_custom sample_take]
    by (simp add: sample_fields two_then_later)
  from run[of Missing]
  have 1: "map_option (exit_code \<circ> status)
     (main json_loads (sample_env (two_then Missing) (\<lambda>i. SendOk) None)) = Some 1"
    by simp
  from run[of "Text ''{oops''"] loads_broken_text
  have 2: "map_option (exit_code \<circ> status)
     (main json_loads (sample_env (two_then (Text ''{oops'')) (\<lambda>i. SendOk) None)) = Some 2"
    by simp
  from run[of Broken]
  have 3: "map_option (exit_code \<circ> status)
     (main json_loads (sample_env (two_then Broken) (\<lambda>i. SendOk) None)) = Some 3"
    by simp
  from run[of \<open>Text ''{"not": "a list"}''\<close>] loads_not_a_list
  have 4: \<open>map_option (exit_code \<circ> status)
     (main json_loads (sample_env (two_then (Text ''{"not": "a list"}'')) (\<lambda>i. SendOk) None)) =
     Some 3\<close>
    by simp
  from 1 2 3 4 show ?thesis by (intro conjI)
qed

text \<open>
  Claim C7. In the same situation, whenever the \<open>k\<close>-th opening does not give a list,
  the process ends by \<^verbatim>\<open>SystemExit\<close> with a code that is not zero: 1 for a missing
  file, 2 for invalid JSON, 3 for everything else. The producer is closed exactly once,
  after the last send and before the process ends.
\<close>

theorem fatal_read_failure_closes_producer:
  assumes "reaches_loop loads env iv" and "0 \<le> iv"
    and "takes_file_branch loads env"
    and "take_messages loads (data_file env) n (FileGenerator [] 0) =
         Some (ms, FileGenerator [] k)"
    and "\<forall>i<n. events env i = SendOk" and "events env n \<noteq> Interrupt"
    and "\<not> (\<exists>s xs. data_file env k = Text s \<and> loads s = Decoded (JArr xs))"
  shows "\<exists>c. main loads env =
           Some \<lparr>exists_checked = True, opens = Suc k,
                 actions = map (Send (get_kafka_topic env)) ms @ [Close],
                 status = SystemExit c\<rparr> \<and>
             c \<noteq> 0 \<and>
             c = (case data_file env k of Missing \<Rightarrow> 1 | Broken \<Rightarrow> 3
                  | Text s \<Rightarrow> (case loads s of JSONDecodeError \<Rightarrow> 2 | _ \<Rightarrow> 3))"
  using main_source_failure[OF assms]
  by (auto split: file_state.splits decoded.splits)

theorem fatal_read_failure_closes_producer_witness:
  "\<exists>c. main json_loads (sample_env (two_then (Text ''{oops'')) (\<lambda>i. SendOk) None) =
         Some \<lparr>exists_checked = True, opens = 2,
               actions = [Send ''buzz'' (JObj [(''message'', JStr ''a'')]),
                          Send ''buzz'' (JObj [(''message'', JStr ''b'')]), Close],
               status = SystemExit c\<rparr> \<and>
       c \<noteq> 0 \<and> c = 2"
  using fatal_read_failure_closes_producer[where loads = json_loads and iv = 1 and n = 2
      and k = 1 and env = "sample_env (two_then (Text ''{oops'')) (\<lambda>i. SendOk) None",
      OF sample_reaches_loop zero_le_one sample_no_custom sample_take]
  by (simp add: sample_fields two_then_later loads_broken_text)

section \<open>Interrupts and failing sends\<close>

text \<open>
  Claim C6. Let \<^verbatim>\<open>main\<close> reach its loop with a pacing interval that is not negative,
  and let the first \<open>n\<close> iterations send the records \<open>ms\<close>. If an interrupt arrives
  before the next record is fetched, nothing more is sent; if instead the send of the
  next record \<open>m\<close> raises an exception, that attempt is the last one. In both cases
  the producer is closed exactly once, after the last send, and \<^verbatim>\<open>main\<close> returns, so
  the process ends with status 0.
\<close>

theorem loop_stops_and_closes_once:
  assumes "reaches_loop loads env iv" and "0 \<le> iv"
    and "chosen_generator loads env = Some gen0"
    and "take_messages loads (data_file env) n gen0 = Some (ms, gen)"
    and "\<forall>i<n. events env i = SendOk"
  shows "(events env n = Interrupt \<longrightarrow>
            main loads env =
            Some \<lparr>exists_checked = (\<not> takes_custom_branch loads env),
                  opens = file_opens gen,
                  actions = map (Send (get_kafka_topic env)) ms @ [Close],
                  status = Returned\<rparr>) \<and>
         (\<forall>m gen'. events env n = SendRaises \<and>
              next_message loads (data_file env) gen = Some (Yield m, gen') \<longrightarrow>
            main loads env =
            Some \<lparr>exists_checked = (\<not> takes_custom_branch loads env),
                  opens = file_opens gen',
                  actions = map (Send (get_kafka_topic env)) (ms @ [m]) @ [Close],
                  status = Returned\<rparr>)"
proof (intro conjI impI allI)
  assume "events env n = Interrupt"
  from main_after_sends[OF assms send_loop_interrupt[OF this]]
  show "main loads env =
        Some \<lparr>exists_checked = (\<not> takes_custom_branch loads env),
              opens = file_opens gen,
              actions = map (Send (get_kafka_topic env)) ms @ [Close], status = Returned\<rparr>"
    by simp
next
  fix m gen'
  assume "events env n = SendRaises \<and>
          next_message loads (data_file env) gen = Some (Yield m, gen')"
  then have e: "events env n = SendRaises"
    and nx: "next_message loads (data_file env) gen = Some (Yield m, gen')" by simp_all
  from main_after_sends[OF assms send_loop_send_raises[OF e nx]]
  show "main loads env =
        Some \<lparr>exists_checked = (\<not> takes_custom_branch loads env),
              opens = file_opens gen',
              actions = map (Send (get_kafka_topic env)) (ms @ [m]) @ [Close],
              status = Returned\<rparr>"
    by simp
qed

theorem loop_stops_and_closes_once_witness:
  "main json_loads (sample_env (two_then (Text two_messages)) (sends_then 2 Interrupt) None) =
     Some \<lparr>exists_checked = True, opens = 1,
           actions = [Send ''buzz'' (JObj [(''message'', JStr ''a'')]),
                      Send ''buzz'' (JObj [(''message'', JStr ''b'')]), Close],
           status = Returned\<rparr> \<and>
   main json_loads (sample_env (two_then (Text two_messages)) (sends_then 2 SendRaises) None) =
     Some \<lparr>exists_checked = True, opens = 2,
           actions = [Send ''buzz'' (JObj [(''message'', JStr ''a'')]),
                      Send ''buzz'' (JObj [(''message'', JStr ''b'')]),
                      Send ''buzz'' (JObj [(''message'', JStr ''a'')]), Close],
           status = Returned\<rparr>"
proof -
  have nx: "next_message json_loads (two_then (Text two_messages)) (FileGenerator [] 1) =
      Some (Yield (JObj [(''message'', JStr ''a'')]),
            FileGenerator [JObj [(''message'', JStr ''b'')]] 2)"
    using next_message_reload[where data = "two_then (Text two_messages)" and k = 1
        and loads = json_loads and s = two_messages, OF _ loads_two]
    by (simp add: two_then_def)
  have run: "(e = Interrupt \<longrightarrow>
       main json_loads (sample_env (two_then (Text two_messages)) (sends_then 2 e) None) =
       Some \<lparr>exists_checked = True, opens = 1,
             actions = [Send ''buzz'' (JObj [(''message'', JStr ''a'')]),
                        Send ''buzz'' (JObj [(''message'', JStr ''b'')]), Close],
             status = Returned\<rparr>) \<and>
     (e = SendRaises \<longrightarrow>
       main json_loads (sample_env (two_then (Text two_messages)) (sends_then 2 e) None) =
       Some \<lparr>exists_checked = True, opens = 2,
             actions = [Send ''buzz'' (JObj [(''message'', JStr ''a'')]),
                        Send ''buzz'' (JObj [(''message'', JStr ''b'')]),
                        Send ''buzz'' (JObj [(''message'', JStr ''a'')]), Close],
             status = Returned\<rparr>)" for e
    using loop_stops_and_closes_once[where loads = json_loads and iv = 1 and n = 2
        and env = "sample_env (two_then (Text two_messages)) (sends_then 2 e) None"
        and gen = "FileGenerator [] 1" and ?gen0.0 = "FileGenerator [] 0"
        and ms = "[JObj [(''message'', JStr ''a'')], JObj [(''message'', JStr ''b'')]]",
        OF sample_reaches_loop zero_le_one chosen_generator_file[OF sample_no_custom]]
      nx take_two_then[of "Text two_messages"] file_branch_not_custom[OF sample_no_custom]
    by (simp add: sample_fields sends_then_def)
  from run[of Interrupt] run[of SendRaises] show ?thesis by simp
qed

section \<open>The custom message\<close>

lemma next_message_custom:
  "next_message loads data (CustomGenerator c) = Some (Yield c, CustomGenerator c)"
  by (simp add: next_message_def generate_custom_message_def)

lemma take_messages_custom:
  "take_messages loads data n (CustomGenerator c) = Some (replicate n c, CustomGenerator c)"
  by (induction n) (simp_all add: next_message_custom)

text \<open>
  Claim C8. Every resumption of the generator of \<^verbatim>\<open>generate_custom_message\<close> yields
  the record \<open>R\<close> that it was made with, and leaves the generator as it was: \<open>n\<close>
  resumptions give \<open>n\<close> copies of \<open>R\<close>, whatever the decoder and the data file are. The
  generator never opens the file and has no resumption that raises.
\<close>

theorem generate_custom_message_repeats:
  "generate_custom_message R = Yield R \<and>
   next_message loads data (CustomGenerator R) = Some (Yield R, CustomGenerator R) \<and>
   take_messages loads data n (CustomGenerator R) = Some (replicate n R, CustomGenerator R) \<and>
   file_opens (CustomGenerator R) = 0"
  by (simp add: generate_custom_message_def next_message_custom take_messages_custom)

text \<open>
  Claim C9, as amended. \<^verbatim>\<open>get_custom_message\<close> on a custom message that is not
  empty returns the decoded value when the decoder returns one, which for a mapping is
  that mapping, and the mapping with the single key \<^verbatim>\<open>message\<close> and the raw string
  when the decoder raises \<^verbatim>\<open>json.JSONDecodeError\<close>. For an empty or unset message
  it returns \<^verbatim>\<open>None\<close> without decoding.
\<close>

theorem get_custom_message_resolution:
  assumes "s \<noteq> []"
  shows "(\<forall>kvs. loads s = Decoded (JObj kvs) \<longrightarrow>
            get_custom_message loads (Some s) = Returns (JObj kvs)) \<and>
         (\<forall>v. loads s = Decoded v \<longrightarrow> get_custom_message loads (Some s) = Returns v) \<and>
         (loads s = JSONDecodeError \<longrightarrow>
            get_custom_message loads (Some s) = Returns (JObj [(''message'', JStr s)])) \<and>
         get_custom_message loads (Some []) = Returns JNull \<and>
         get_custom_message loads None = Returns JNull"
  using assms by (simp add: get_custom_message_def)

lemma loads_eve:
  \<open>json_loads ''{"message": "I love Python!", "author": "Eve"}'' =
   Decoded (JObj [(''message'', JStr ''I love Python!''), (''author'', JStr ''Eve'')])\<close>
  by code_simp

lemma loads_hello: "json_loads ''hello'' = JSONDecodeError"
  by code_simp

theorem get_custom_message_resolution_witness:
  \<open>get_custom_message json_loads (Some ''{"message": "I love Python!", "author": "Eve"}'') =
     Returns (JObj [(''message'', JStr ''I love Python!''), (''author'', JStr ''Eve'')]) \<and>
   get_custom_message json_loads (Some ''hello'') =
     Returns (JObj [(''message'', JStr ''hello'')]) \<and>
   get_custom_message json_loads (Some []) = Returns JNull \<and>
   get_custom_message json_loads None = Returns JNull\<close>
proof -
  have 1: \<open>''{"message": "I love Python!", "author": "Eve"}'' \<noteq> []\<close> by simp
  have 2: "''hello'' \<noteq> []" by simp
  from get_custom_message_resolution[OF 1, of json_loads]
    get_custom_message_resolution[OF 2, of json_loads] loads_eve loads_hello
  show ?thesis by simp
qed

lemma scan_number_long_integer:
  assumes "4300 < n"
  shows "scan_number (replicate n (CHR ''1'')) = Refused"
proof -
  from assms obtain m where n: "n = Suc m" by (cases n) auto
  have d: "is_digit (CHR ''1'')" by (simp add: is_digit_def digit_val_def)
  have tw: "takeWhile is_digit (replicate m (CHR ''1'')) = replicate m (CHR ''1'')"
    by (simp add: takeWhile_replicate d)
  show ?thesis
    using assms by (simp add: scan_number_def n d tw Let_def)
qed

lemma json_loads_long_integer:
  assumes "4300 < n"
  shows "json_loads (replicate n (CHR ''1'')) = OtherError"
proof -
  from assms obtain m where n: "n = Suc m" by (cases n) auto
  have sn: "scan_number (CHR ''1'' # replicate m (CHR ''1'')) = Refused"
    using scan_number_long_integer[OF assms] by (simp add: n)
  show ?thesis
    by (simp add: json_loads_def n is_ws_def starts_with_def sn)
qed

text \<open>
  Claim C9 as stated fails twice. On the empty string decoding would fail, and the result
  is \<^verbatim>\<open>None\<close>, not a mapping. And the function has a fatal path: an integer of 4301
  digits makes the decoder raise \<^verbatim>\<open>ValueError\<close>, which is not a
  \<^verbatim>\<open>json.JSONDecodeError\<close>; it leaves \<^verbatim>\<open>get_custom_message\<close> and ends \<^verbatim>\<open>main\<close>
  before the producer is created.
\<close>

theorem get_custom_message_can_raise:
  "json_loads [] = JSONDecodeError \<and>
   get_custom_message json_loads (Some []) = Returns JNull \<and>
   json_loads (replicate 4301 (CHR ''1'')) = OtherError \<and>
   get_custom_message json_loads (Some (replicate 4301 (CHR ''1''))) = Raises \<and>
   main json_loads
     (sample_env (\<lambda>k. Missing) (\<lambda>i. SendOk) (Some (replicate 4301 (CHR ''1'')))) =
     Some \<lparr>exists_checked = False, opens = 0, actions = [], status = Uncaught\<rparr>"
proof -
  have e: "json_loads [] = JSONDecodeError" by code_simp
  have l: "json_loads (replicate 4301 (CHR ''1'')) = OtherError"
    by (rule json_loads_long_integer) simp
  have ne: "replicate 4301 (CHR ''1'') \<noteq> []" by simp
  have g: "get_custom_message json_loads (Some (replicate 4301 (CHR ''1''))) = Raises"
    using ne by (simp add: get_custom_message_def l)
  have m: "main json_loads
     (sample_env (\<lambda>k. Missing) (\<lambda>i. SendOk) (Some (replicate 4301 (CHR ''1'')))) =
     Some \<lparr>exists_checked = False, opens = 0, actions = [], status = Uncaught\<rparr>"
    by (simp add: main_def sample_env_def get_message_interval_def g)
  from e l g m show ?thesis by (simp add: get_custom_message_def)
qed

text \<open>
  Claim C10. When the custom message is valid JSON whose value is true in Python's sense
  but is not a mapping, \<^verbatim>\<open>get_custom_message\<close> returns that value, and \<^verbatim>\<open>main\<close>
  hands it to \<^verbatim>\<open>producer.send\<close> in every iteration: after \<open>n\<close> sends and an
  interrupt, the calls were \<open>n\<close> sends of that value and one close.
\<close>

theorem non_mapping_custom_message_is_sent:
  assumes "CUSTOM_MESSAGE env = Some s" and "s \<noteq> []" and "loads s = Decoded v"
    and "truthy v" and "\<not> is_mapping v"
    and "reaches_loop loads env iv" and "0 \<le> iv"
    and "\<forall>i<n. events env i = SendOk" and "events env n = Interrupt"
  shows "get_custom_message loads (CUSTOM_MESSAGE env) = Returns v \<and>
         main loads env =
         Some \<lparr>exists_checked = False, opens = 0,
               actions = replicate n (Send (get_kafka_topic env) v) @ [Close],
               status = Returned\<rparr>"
proof -
  from assms(1-3) have g: "get_custom_message loads (CUSTOM_MESSAGE env) = Returns v"
    by (simp add: get_custom_message_def)
  from chosen_generator_custom[OF g assms(4)]
  have ch: "chosen_generator loads env = Some (CustomGenerator v)"
    and cb: "takes_custom_branch loads env" by simp_all
  have tk: "take_messages loads (data_file env) n (CustomGenerator v) =
            Some (replicate n v, CustomGenerator v)"
    by (simp add: take_messages_custom)
  from main_after_sends[OF assms(6,7) ch tk assms(8) send_loop_interrupt[OF assms(9)]] g cb
  show ?thesis by (simp add: map_replicate)
qed

lemma loads_list: "json_loads ''[1]'' = Decoded (JArr [JInt 1])"
  by code_simp

lemma sample_reaches_loop_custom:
  "get_custom_message loads custom = Returns c \<Longrightarrow>
   reaches_loop loads (sample_env data evs custom) 1"
  by (simp add: reaches_loop_def sample_env_def takes_custom_branch_def takes_file_branch_def)

theorem non_mapping_custom_message_is_sent_witness:
  "get_custom_message json_loads
     (CUSTOM_MESSAGE (sample_env (\<lambda>k. Missing) (sends_then 3 Interrupt) (Some ''[1]''))) =
     Returns (JArr [JInt 1]) \<and>
   main json_loads (sample_env (\<lambda>k. Missing) (sends_then 3 Interrupt) (Some ''[1]'')) =
     Some \<lparr>exists_checked = False, opens = 0,
           actions = [Send ''buzz'' (JArr [JInt 1]), Send ''buzz'' (JArr [JInt 1]),
                      Send ''buzz'' (JArr [JInt 1]), Close],
           status = Returned\<rparr>"
proof -
  let ?env = "sample_env (\<lambda>k. Missing) (sends_then 3 Interrupt) (Some ''[1]'')"
  have c: "CUSTOM_MESSAGE ?env = Some ''[1]''" by (simp add: sample_fields)
  have ne: "''[1]'' \<noteq> []" by simp
  have t: "truthy (JArr [JInt 1])" by simp
  have m: "\<not> is_mapping (JArr [JInt 1])" by simp
  have g: "get_custom_message json_loads (Some ''[1]'') = Returns (JArr [JInt 1])"
    by (simp add: get_custom_message_def loads_list)
  have ok: "\<forall>i<3. events ?env i = SendOk" by (simp add: sample_fields sends_then_def)
  have int: "events ?env 3 = Interrupt" by (simp add: sample_fields sends_then_def)
  from non_mapping_custom_message_is_sent[where loads = json_loads,
      OF c ne loads_list t m sample_reaches_loop_custom[OF g] zero_le_one ok int]
  show ?thesis by (simp add: sample_fields numeral_3_eq_3)
qed

section \<open>The choice between the custom message and the data file\<close>

lemma send_loop_custom_transfer:
  assumes "send_loop loads env topic iv gen i done = Some y"
  shows "\<forall>c env'. gen = CustomGenerator c \<and> events env' = events env \<longrightarrow>
           send_loop loads env' topic iv gen i done = Some y"
proof (rule send_loop.raw_induct[OF _ assms])
  fix sl :: "(string \<Rightarrow> decoded) \<Rightarrow> environment \<Rightarrow> string \<Rightarrow> int \<Rightarrow> message_generator
      \<Rightarrow> nat \<Rightarrow> action list \<Rightarrow> (action list \<times> message_generator \<times> loop_end) option"
    and l and e :: environment and t and v :: int and g i d y
  assume IH: "\<And>l e t v g i d y. sl l e t v g i d = Some y \<Longrightarrow>
      \<forall>c env'. g = CustomGenerator c \<and> events env' = events e \<longrightarrow>
        send_loop l env' t v g i d = Some y"
    and body: "(if events e i = Interrupt then Some (d, g, Interrupted)
      else
        (case next_message l (data_file e) g of
           None \<Rightarrow> None
         | Some (r, gen') \<Rightarrow>
             (case r of
                Raise_StopIteration \<Rightarrow> Some (d, gen', Exhausted)
              | Raise_SystemExit c \<Rightarrow> Some (d, gen', Exiting c)
              | Yield message_dict \<Rightarrow>
                  if events e i = SendRaises
                  then Some (d @ [Send t message_dict], gen', Failed)
                  else if v < 0
                  then Some (d @ [Send t message_dict], gen', Failed)
                  else sl l e t v gen' (Suc i) (d @ [Send t message_dict])))) = Some y"
  show "\<forall>c env'. g = CustomGenerator c \<and> events env' = events e \<longrightarrow>
          send_loop l env' t v g i d = Some y"
  proof (intro allI impI)
    fix c and env' :: environment
    assume a: "g = CustomGenerator c \<and> events env' = events e"
    then have g: "g = CustomGenerator c" and ev: "events env' i = events e i" by simp_all
    show "send_loop l env' t v g i d = Some y"
    proof (cases "events e i = Interrupt \<or> events e i = SendRaises \<or> v < 0")
      case True
      with body show ?thesis
        by (subst send_loop.simps) (auto simp: g ev next_message_custom split: if_splits)
    next
      case False
      with body have "sl l e t v (CustomGenerator c) (Suc i) (d @ [Send t c]) = Some y"
        by (simp add: g next_message_custom)
      from IH[OF this] a
      have "send_loop l env' t v (CustomGenerator c) (Suc i) (d @ [Send t c]) = Some y"
        by blast
      with False show ?thesis
        by (subst send_loop.simps) (simp add: g ev next_message_custom)
    qed
  qed
qed

lemma send_loop_custom_eq:
  assumes "events env' = events env"
  shows "send_loop loads env' topic iv (CustomGenerator c) i done =
         send_loop loads env topic iv (CustomGenerator c) i done"
proof (cases "send_loop loads env topic iv (CustomGenerator c) i done")
  case (Some y)
  from send_loop_custom_transfer[OF this] assms show ?thesis by (simp add: Some)
next
  case None
  show ?thesis
  proof (cases "send_loop loads env' topic iv (CustomGenerator c) i done")
    case None
    with \<open>send_loop loads env topic iv (CustomGenerator c) i done = None\<close> show ?thesis by simp
  next
    case (Some y)
    from send_loop_custom_transfer[OF this] assms
    have "send_loop loads env topic iv (CustomGenerator c) i done = Some y" by simp
    with None show ?thesis by simp
  qed
qed

lemma send_loop_custom_result:
  assumes "send_loop loads env topic iv gen i done = Some y"
  shows "\<forall>c. gen = CustomGenerator c \<longrightarrow>
           fst (snd y) = CustomGenerator c \<and> (\<forall>x. snd (snd y) \<noteq> Exiting x) \<and>
           (\<exists>k. fst y = done @ replicate k (Send topic c))"
proof (rule send_loop.raw_induct[OF _ assms])
  fix sl :: "(string \<Rightarrow> decoded) \<Rightarrow> environment \<Rightarrow> string \<Rightarrow> int \<Rightarrow> message_generator
      \<Rightarrow> nat \<Rightarrow> action list \<Rightarrow> (action list \<times> message_generator \<times> loop_end) option"
    and l and e :: environment and t and v :: int and g i d y
  assume IH: "\<And>l e t v g i d y. sl l e t v g i d = Some y \<Longrightarrow>
      \<forall>c. g = CustomGenerator c \<longrightarrow>
        fst (snd y) = CustomGenerator c \<and> (\<forall>x. snd (snd y) \<noteq> Exiting x) \<and>
        (\<exists>k. fst y = d @ replicate k (Send t c))"
    and body: "(if events e i = Interrupt then Some (d, g, Interrupted)
      else
        (case next_message l (data_file e) g of
           None \<Rightarrow> None
         | Some (r, gen') \<Rightarrow>
             (case r of
                Raise_StopIteration \<Rightarrow> Some (d, gen', Exhausted)
              | Raise_SystemExit c \<Rightarrow> Some (d, gen', Exiting c)
              | Yield message_dict \<Rightarrow>
                  if events e i = SendRaises
                  then Some (d @ [Send t message_dict], gen', Failed)
                  else if v < 0
                  then Some (d @ [Send t message_dict], gen', Failed)
                  else sl l e t v gen' (Suc i) (d @ [Send t message_dict])))) = Some y"
  show "\<forall>c. g = CustomGenerator c \<longrightarrow>
          fst (snd y) = CustomGenerator c \<and> (\<forall>x. snd (snd y) \<noteq> Exiting x) \<and>
          (\<exists>k. fst y = d @ replicate k (Send t c))"
  proof (intro allI impI)
    fix c
    assume g: "g = CustomGenerator c"
    show "fst (snd y) = CustomGenerator c \<and> (\<forall>x. snd (snd y) \<noteq> Exiting x) \<and>
          (\<exists>k. fst y = d @ replicate k (Send t c))"
    proof (cases "events e i = Interrupt")
      case True
      with body g have "y = (d, CustomGenerator c, Interrupted)" by simp
      then show ?thesis by (simp add: exI[of _ 0])
    next
      case ni: False
      show ?thesis
      proof (cases "events e i = SendRaises \<or> v < 0")
        case True
        with body g ni have "y = (d @ [Send t c], CustomGenerator c, Failed)"
          by (auto simp: next_message_custom split: if_splits)
        then show ?thesis by (simp add: exI[of _ "Suc 0"])
      next
        case False
        with body g ni have "sl l e t v (CustomGenerator c) (Suc i) (d @ [Send t c]) = Some y"
          by (simp add: next_message_custom)
        from IH[OF this] obtain k where
          "fst (snd y) = CustomGenerator c" "\<forall>x. snd (snd y) \<noteq> Exiting x"
          "fst y = (d @ [Send t c]) @ replicate k (Send t c)" by blast
        then show ?thesis
          by (simp add: exI[of _ "Suc k"])
      qed
    qed
  qed
qed

lemma main_custom_outcome:
  assumes g: "get_custom_message loads (CUSTOM_MESSAGE env) = Returns c" and t: "truthy c"
    and m: "main loads env = Some r"
  shows "\<not> exists_checked r \<and> opens r = 0"
proof (cases "services_exit env = None \<and> interval_value env \<noteq> None \<and>
              producer_created env \<and> topic_created env")
  case False
  with g t m show ?thesis
    by (auto simp: main_def run_producer_def get_message_interval_def Let_def
        split: option.splits if_splits)
next
  case True
  then obtain iv where iv: "interval_value env = Some iv" by auto
  from chosen_generator_custom[OF g t]
  have ch: "chosen_generator loads env = Some (CustomGenerator c)"
    and cb: "takes_custom_branch loads env" by simp_all
  from True iv cb have r: "reaches_loop loads env iv" by (simp add: reaches_loop_def)
  from main_reaches_loop[OF r ch] m True cb obtain d gen h where
    sl: "send_loop loads env (get_kafka_topic env) iv (CustomGenerator c) 0 [] =
         Some (d, gen, h)"
    and "r = \<lparr>exists_checked = False, opens = file_opens gen, actions = d @ [Close],
               status = (case h of Exiting c \<Rightarrow> SystemExit c | _ \<Rightarrow> Returned)\<rparr>"
    by (auto simp: run_producer_def split: option.splits)
  moreover from send_loop_custom_result[OF sl] have "gen = CustomGenerator c" by simp
  ultimately show ?thesis by simp
qed

text \<open>
  Claim C5, as amended. For a custom message that is set and either is not valid JSON or
  decodes to a value that is true in Python's sense, \<^verbatim>\<open>main\<close> chooses the generator of
  \<^verbatim>\<open>generate_custom_message\<close>; the run is the same whatever the data file is and
  whether it exists, and a run that ends has neither evaluated
  \<^verbatim>\<open>DATA_FILE.exists()\<close> nor opened the file.
\<close>

theorem custom_message_bypasses_file:
  assumes "CUSTOM_MESSAGE env = Some s" and "s \<noteq> []"
    and "loads s = JSONDecodeError \<or> (\<exists>v. loads s = Decoded v \<and> truthy v)"
  shows "(\<exists>c. get_custom_message loads (CUSTOM_MESSAGE env) = Returns c \<and>
              chosen_generator loads env = Some (CustomGenerator c)) \<and>
         main loads (env\<lparr>data_file_exists := b, data_file := d\<rparr>) = main loads env \<and>
         (\<forall>r. main loads env = Some r \<longrightarrow> \<not> exists_checked r \<and> opens r = 0)"
proof -
  from assms obtain c where g: "get_custom_message loads (CUSTOM_MESSAGE env) = Returns c"
    and t: "truthy c"
    by (auto simp: get_custom_message_def)
  let ?env' = "env\<lparr>data_file_exists := b, data_file := d\<rparr>"
  have ev: "events ?env' = events env" by simp
  have rp: "run_producer loads ?env' topic iv chk (CustomGenerator c) =
            run_producer loads env topic iv chk (CustomGenerator c)" for topic iv chk c
    by (simp add: run_producer_def send_loop_custom_eq[OF ev])
  have "main loads ?env' = main loads env"
    using g t
    by (simp add: main_def rp get_message_interval_def get_kafka_topic_def Let_def
        split: option.splits)
  with g chosen_generator_custom[OF g t] main_custom_outcome[OF g t] show ?thesis
    by simp
qed

theorem custom_message_bypasses_file_witness:
  "chosen_generator json_loads
     (sample_env (\<lambda>k. Missing) (sends_then 1 Interrupt) (Some ''hello'')) =
     Some (CustomGenerator (JObj [(''message'', JStr ''hello'')])) \<and>
   main json_loads
     ((sample_env (\<lambda>k. Missing) (sends_then 1 Interrupt) (Some ''hello''))
        \<lparr>data_file_exists := False, data_file := \<lambda>k. Broken\<rparr>) =
   main json_loads (sample_env (\<lambda>k. Missing) (sends_then 1 Interrupt) (Some ''hello'')) \<and>
   main json_loads (sample_env (\<lambda>k. Missing) (sends_then 1 Interrupt) (Some ''hello'')) =
     Some \<lparr>exists_checked = False, opens = 0,
           actions = [Send ''buzz'' (JObj [(''message'', JStr ''hello'')]), Close],
           status = Returned\<rparr> \<and>
   \<not> exists_checked \<lparr>exists_checked = False, opens = 0,
           actions = [Send ''buzz'' (JObj [(''message'', JStr ''hello'')]), Close],
           status = Returned\<rparr>"
proof -
  let ?env = "sample_env (\<lambda>k. Missing) (sends_then 1 Interrupt) (Some ''hello'')"
  have c: "CUSTOM_MESSAGE ?env = Some ''hello''" by (simp add: sample_fields)
  have ne: "''hello'' \<noteq> []" by simp
  have l: "json_loads ''hello'' = JSONDecodeError \<or>
           (\<exists>v. json_loads ''hello'' = Decoded v \<and> truthy v)"
    by (simp add: loads_hello)
  have run: "main json_loads ?env =
     Some \<lparr>exists_checked = False, opens = 0,
           actions = [Send ''buzz'' (JObj [(''message'', JStr ''hello'')]), Close],
           status = Returned\<rparr>"
    by code_simp
  from custom_message_bypasses_file[where loads = json_loads and b = False
      and d = "\<lambda>k. Broken", OF c ne l] run
  show ?thesis
    by (simp add: sample_fields get_custom_message_def loads_hello)
qed

text \<open>
  Claim C5 as stated fails: the custom messages \<^verbatim>\<open>0\<close>, \<^verbatim>\<open>false\<close>, \<^verbatim>\<open>null\<close>,
  \<^verbatim>\<open>[]\<close> and \<^verbatim>\<open>""\<close> decode to values that \<^verbatim>\<open>if custom_msg:\<close> takes as false,
  and \<^verbatim>\<open>main\<close> checks that the data file exists, opens it and sends its first record.
\<close>

theorem falsy_custom_message_reads_file:
  \<open>main json_loads (sample_env (two_then Missing) (sends_then 1 Interrupt) (Some ''0'')) =
     Some \<lparr>exists_checked = True, opens = 1,
           actions = [Send ''buzz'' (JObj [(''message'', JStr ''a'')]), Close],
           status = Returned\<rparr> \<and>
   main json_loads (sample_env (two_then Missing) (sends_then 1 Interrupt) (Some ''false'')) =
     Some \<lparr>exists_checked = True, opens = 1,
           actions = [Send ''buzz'' (JObj [(''message'', JStr ''a'')]), Close],
           status = Returned\<rparr> \<and>
   main json_loads (sample_env (two_then Missing) (sends_then 1 Interrupt) (Some ''null'')) =
     Some \<lparr>exists_checked = True, opens = 1,
           actions = [Send ''buzz'' (JObj [(''message'', JStr ''a'')]), Close],
           status = Returned\<rparr> \<and>
   main json_loads (sample_env (two_then Missing) (sends_then 1 Interrupt) (Some ''[]'')) =
     Some \<lparr>exists_checked = True, opens = 1,
           actions = [Send ''buzz'' (JObj [(''message'', JStr ''a'')]), Close],
           status = Returned\<rparr> \<and>
   main json_loads (sample_env (two_then Missing) (sends_then 1 Interrupt) (Some ''""'')) =
     Some \<lparr>exists_checked = True, opens = 1,
           actions = [Send ''buzz'' (JObj [(''message'', JStr ''a'')]), Close],
           status = Returned\<rparr>\<close>
  by code_simp

section \<open>An empty list in the data file\<close>

text \<open>
  Claim C4, as amended. When the next opening of the data file finds a list that is not
  empty, a resumption of the generator of \<^verbatim>\<open>generate_messages\<close> yields a record,
  whatever is pending, and the generator stays alive: it neither ends nor exits.
\<close>

theorem next_message_yields:
  assumes "data k = Text s" and "loads s = Decoded (JArr xs)" and "xs \<noteq> []"
  shows "\<exists>m pending' k'. next_message loads data (FileGenerator pending k) =
           Some (Yield m, FileGenerator pending' k')"
proof (cases pending)
  case Nil
  from assms(3) obtain x rest where "xs = x # rest" by (cases xs) auto
  with assms(1,2) Nil show ?thesis
    using next_message_reload[where data = data and k = k and loads = "loads" and s = s
        and m = x and rest = rest]
    by simp
next
  case (Cons m rest)
  then show ?thesis by (simp add: next_message_pending)
qed

theorem next_message_yields_witness:
  "\<exists>m pending' k'. next_message json_loads (\<lambda>k. Text two_messages) (FileGenerator [] 0) =
     Some (Yield m, FileGenerator pending' k')"
proof -
  have ne: "[JObj [(''message'', JStr ''a'')], JObj [(''message'', JStr ''b'')]] \<noteq> []"
    by simp
  show ?thesis
    by (rule next_message_yields[where data = "\<lambda>k. Text two_messages" and k = 0
          and loads = json_loads, OF refl loads_two ne])
qed

lemma loads_empty_list: "json_loads ''[]'' = Decoded (JArr [])"
  by code_simp

text \<open>
  Claim C4 as stated fails for the empty list: while the data file holds \<^verbatim>\<open>[]\<close>, the
  generator opens it again and again and the resumption never returns.
\<close>

theorem empty_list_never_yields:
  "next_message json_loads (\<lambda>k. Text ''[]'') (FileGenerator [] 0) = None"
  by (simp add: next_message_def generate_messages_empty_diverges loads_empty_list)

section \<open>The exit codes\<close>

text \<open>
  Claim C3, as amended. There are three fatal exit codes, and they are shared. In the
  generator a missing file exits with 1, invalid JSON with 2, and a value that is not a
  list with 3, as does every other exception. In \<^verbatim>\<open>main\<close> a data file that does not
  exist exits with 1, a producer that cannot be created with 3 and a topic that cannot
  be created with 1.
\<close>

theorem exit_code_taxonomy:
  assumes "services_exit env = None" and "interval_value env = Some iv"
  shows "(data k = Missing \<longrightarrow>
            generate_messages loads data ([], k) = Some (Raise_SystemExit 1, [], Suc k)) \<and>
         (\<forall>s. data k = Text s \<and> loads s = JSONDecodeError \<longrightarrow>
            generate_messages loads data ([], k) = Some (Raise_SystemExit 2, [], Suc k)) \<and>
         (\<forall>s v. data k = Text s \<and> loads s = Decoded v \<and> \<not> is_list v \<longrightarrow>
            generate_messages loads data ([], k) = Some (Raise_SystemExit 3, [], Suc k)) \<and>
         (data k = Broken \<longrightarrow>
            generate_messages loads data ([], k) = Some (Raise_SystemExit 3, [], Suc k)) \<and>
         (\<forall>s. data k = Text s \<and> loads s = OtherError \<longrightarrow>
            generate_messages loads data ([], k) = Some (Raise_SystemExit 3, [], Suc k)) \<and>
         (takes_file_branch loads env \<and> \<not> data_file_exists env \<longrightarrow>
            map_option status (main loads env) = Some (SystemExit 1)) \<and>
         ((takes_custom_branch loads env \<or>
           takes_file_branch loads env \<and> data_file_exists env) \<and>
          \<not> producer_created env \<longrightarrow>
            map_option status (main loads env) = Some (SystemExit 3)) \<and>
         ((takes_custom_branch loads env \<or>
           takes_file_branch loads env \<and> data_file_exists env) \<and>
          producer_created env \<and> \<not> topic_created env \<longrightarrow>
            map_option status (main loads env) = Some (SystemExit 1))"
proof (intro conjI allI impI)
  assume "data k = Missing"
  then show "generate_messages loads data ([], k) = Some (Raise_SystemExit 1, [], Suc k)"
    by (rule generate_messages_missing)
next
  fix s assume "data k = Text s \<and> loads s = JSONDecodeError"
  then show "generate_messages loads data ([], k) = Some (Raise_SystemExit 2, [], Suc k)"
    by (simp add: generate_messages_syntax[where s = s])
next
  fix s v assume "data k = Text s \<and> loads s = Decoded v \<and> \<not> is_list v"
  then show "generate_messages loads data ([], k) = Some (Raise_SystemExit 3, [], Suc k)"
    by (simp add: generate_messages_not_list[where s = s and v = v])
next
  assume "data k = Broken"
  then show "generate_messages loads data ([], k) = Some (Raise_SystemExit 3, [], Suc k)"
    by (rule generate_messages_broken)
next
  fix s assume "data k = Text s \<and> loads s = OtherError"
  then show "generate_messages loads data ([], k) = Some (Raise_SystemExit 3, [], Suc k)"
    by (simp add: generate_messages_other[where s = s])
next
  assume "takes_file_branch loads env \<and> \<not> data_file_exists env"
  with assms show "map_option status (main loads env) = Some (SystemExit 1)"
    by (auto simp: main_def get_message_interval_def takes_file_branch_def Let_def
        split: call.splits)
next
  assume "(takes_custom_branch loads env \<or>
           takes_file_branch loads env \<and> data_file_exists env) \<and> \<not> producer_created env"
  with assms show "map_option status (main loads env) = Some (SystemExit 3)"
    by (auto simp: main_def get_message_interval_def run_producer_def Let_def
        takes_file_branch_def takes_custom_branch_def split: call.splits)
next
  assume "(takes_custom_branch loads env \<or>
           takes_file_branch loads env \<and> data_file_exists env) \<and>
          producer_created env \<and> \<not> topic_created env"
  with assms show "map_option status (main loads env) = Some (SystemExit 1)"
    by (auto simp: main_def get_message_interval_def run_producer_def Let_def
        takes_file_branch_def takes_custom_branch_def split: call.splits)
qed

theorem exit_code_taxonomy_witness:
  \<open>generate_messages json_loads (\<lambda>k. Missing) ([], 0) = Some (Raise_SystemExit 1, [], 1) \<and>
   generate_messages json_loads (\<lambda>k. Text ''{oops'') ([], 0) =
     Some (Raise_SystemExit 2, [], 1) \<and>
   generate_messages json_loads (\<lambda>k. Text ''{"not": "a list"}'') ([], 0) =
     Some (Raise_SystemExit 3, [], 1) \<and>
   generate_messages json_loads (\<lambda>k. Broken) ([], 0) = Some (Raise_SystemExit 3, [], 1) \<and>
   map_option status
     (main json_loads
        ((sample_env (\<lambda>k. Missing) (\<lambda>i. SendOk) None)\<lparr>data_file_exists := False\<rparr>)) =
     Some (SystemExit 1) \<and>
   map_option status
     (main json_loads
        ((sample_env (\<lambda>k. Text two_messages) (\<lambda>i. SendOk) None)\<lparr>producer_created := False\<rparr>)) =
     Some (SystemExit 3) \<and>
   map_option status
     (main json_loads
        ((sample_env (\<lambda>k. Text two_messages) (\<lambda>i. SendOk) None)\<lparr>topic_created := False\<rparr>)) =
     Some (SystemExit 1)\<close>
proof -
  let ?e1 = "(sample_env (\<lambda>k. Missing) (\<lambda>i. SendOk) None)\<lparr>data_file_exists := False\<rparr>"
  let ?e2 = "(sample_env (\<lambda>k. Text two_messages) (\<lambda>i. SendOk) None)\<lparr>producer_created := False\<rparr>"
  let ?e3 = "(sample_env (\<lambda>k. Text two_messages) (\<lambda>i. SendOk) None)\<lparr>topic_created := False\<rparr>"
  have s1: "services_exit ?e1 = None" and i1: "interval_value ?e1 = Some 1"
    and s2: "services_exit ?e2 = None" and i2: "interval_value ?e2 = Some 1"
    and s3: "services_exit ?e3 = None" and i3: "interval_value ?e3 = Some 1"
    by (simp_all add: sample_env_def)
  note a = exit_code_taxonomy[where loads = json_loads and k = 0, OF s1 i1]
  have g1: "generate_messages json_loads (\<lambda>k. Missing) ([], 0) =
      Some (Raise_SystemExit 1, [], 1)"
    using a[where data = "\<lambda>k. Missing"] by simp
  have g2: "generate_messages json_loads (\<lambda>k. Text ''{oops'') ([], 0) =
      Some (Raise_SystemExit 2, [], 1)"
    using a[where data = "\<lambda>k. Text ''{oops''"] loads_broken_text by simp
  have g3: \<open>generate_messages json_loads (\<lambda>k. Text ''{"not": "a list"}'') ([], 0) =
      Some (Raise_SystemExit 3, [], 1)\<close>
    using a[where data = \<open>\<lambda>k. Text ''{"not": "a list"}''\<close>] loads_not_a_list by simp
  have g4: "generate_messages json_loads (\<lambda>k. Broken) ([], 0) =
      Some (Raise_SystemExit 3, [], 1)"
    using a[where data = "\<lambda>k. Broken"] by simp
  have m1: "map_option status (main json_loads ?e1) = Some (SystemExit 1)"
    using a[where data = "\<lambda>k. Missing"]
    by (simp add: sample_env_def get_custom_message_def takes_file_branch_def
        takes_custom_branch_def)
  have m2: "map_option status (main json_loads ?e2) = Some (SystemExit 3)"
    using exit_code_taxonomy[where loads = json_loads and k = 0 and data = "\<lambda>k. Missing",
        OF s2 i2]
    by (simp add: sample_env_def get_custom_message_def takes_file_branch_def
        takes_custom_branch_def)
  have m3: "map_option status (main json_loads ?e3) = Some (SystemExit 1)"
    using exit_code_taxonomy[where loads = json_loads and k = 0 and data = "\<lambda>k. Missing",
        OF s3 i3]
    by (simp add: sample_env_def get_custom_message_def takes_file_branch_def
        takes_custom_branch_def)
  from g1 g2 g3 g4 m1 m2 m3 show ?thesis by (intro conjI)
qed

text \<open>
  Claim C3 as stated fails: a data file that holds an object and a data file that cannot
  be read both end the process with 3, as does the failure to create the producer, and
  the failure to create the topic ends it with 1 as a missing data file does.
\<close>

theorem exit_codes_coincide:
  \<open>map_option status
     (main json_loads (sample_env (\<lambda>k. Text ''{"not": "a list"}'') (\<lambda>i. SendOk) None)) =
     Some (SystemExit 3) \<and>
   map_option status (main json_loads (sample_env (\<lambda>k. Broken) (\<lambda>i. SendOk) None)) =
     Some (SystemExit 3) \<and>
   map_option status
     (main json_loads
        ((sample_env (\<lambda>k. Text two_messages) (\<lambda>i. SendOk) None)\<lparr>producer_created := False\<rparr>)) =
     Some (SystemExit 3) \<and>
   map_option status
     (main json_loads
        ((sample_env (\<lambda>k. Text two_messages) (\<lambda>i. SendOk) None)\<lparr>topic_created := False\<rparr>)) =
     Some (SystemExit 1) \<and>
   map_option status (main json_loads (sample_env (\<lambda>k. Missing) (\<lambda>i. SendOk) None)) =
     Some (SystemExit 1)\<close>
  by code_simp

end
